theory Spec2Isabelle
  imports Main
begin

section \<open>Addresses and types\<close>

text \<open>
  Pointers are addresses; address \<open>0\<close> is \<open>nullptr\<close>. A function pointer
  \<open>R (*)(ArgTs...)\<close>, an object pointer \<open>T *\<close> and a member-function pointer
  \<open>R (T::*)(ArgTs...)\<close> are each one such value. The class \<open>T\<close> of
  \<open>MethodCaller<T>\<close> is named by a \<open>class_id\<close>.
\<close>

type_synonym fun_ptr = nat
type_synonym obj_ptr = nat
type_synonym method_ptr = nat
type_synonym class_id = string

abbreviation (input) nullptr :: nat where
  "nullptr \<equiv> 0"

text \<open>
  The template instance \<open>Callback<R, ArgTs...>\<close>: what \<open>typeid(*this)\<close> of a
  Callback object identifies.
\<close>

datatype signature = Signature (R: string) (ArgTs: "string list")

section \<open>The build: buffer size and static assertions\<close>

text \<open>
  The macros the preprocessor tests, and the two \<open>sizeof\<close> values the static assertions
  read; the sizes depend on the target's ABI and are parameters of the model.
\<close>

record target =
  PC_BUILD :: bool
  linux :: bool
  LP64 :: bool
  APPLE :: bool
  MACH :: bool
  sizeof_FunctionCaller :: nat
  sizeof_MethodCaller :: "class_id \<Rightarrow> nat"

definition CALLBACK_INTERNAL_BUFFER_SIZE :: "target \<Rightarrow> nat" where
  "CALLBACK_INTERNAL_BUFFER_SIZE t =
     (if PC_BUILD t \<and> (linux t \<or> LP64 t \<or> APPLE t \<or> MACH t) then 32 else 16)"

datatype build_error = static_assert_failed string

definition checkSizeEqual :: "nat \<Rightarrow> nat \<Rightarrow> build_error + unit" where
  "checkSizeEqual ExpectedSize RealSize =
     (if \<not> ExpectedSize \<ge> RealSize then Inl (static_assert_failed ''Internal Buffer is too small!'')
      else if \<not> ExpectedSize = RealSize then Inl (static_assert_failed ''Internal Buffer is too big!'')
      else Inr ())"

definition checkSizeFit :: "nat \<Rightarrow> nat \<Rightarrow> build_error + unit" where
  "checkSizeFit MaxSize RealSize =
     (if \<not> MaxSize \<ge> RealSize then Inl (static_assert_failed ''Internal Buffer is too small!'')
      else Inr ())"

section \<open>InternalCallable and its two implementations\<close>

datatype InternalCallable =
    FunctionCaller (FunctionCaller_func: fun_ptr)
  | MethodCaller (MethodCaller_T: class_id) (MethodCaller_obj: obj_ptr)
      (MethodCaller_method: method_ptr)

text \<open>\<open>typeid\<close> of an InternalCallable object: its most derived class.\<close>

datatype callable_type_info = typeid_FunctionCaller | typeid_MethodCaller class_id

fun typeid_callable :: "InternalCallable \<Rightarrow> callable_type_info" where
  "typeid_callable (FunctionCaller f) = typeid_FunctionCaller"
| "typeid_callable (MethodCaller T ob m) = typeid_MethodCaller T"

text \<open>
  \<open>tryCompare\<close> takes a pointer: \<open>None\<close> is \<open>nullptr\<close>, \<open>Some c\<close> points to the
  object \<open>c\<close>. The cast to the own class happens under the \<open>typeid\<close> test only, so the
  selectors below are read on the constructor they belong to.
\<close>

fun tryCompare :: "InternalCallable \<Rightarrow> InternalCallable option \<Rightarrow> bool" where
  "tryCompare (FunctionCaller f) otherPtr =
     (case otherPtr of
        None \<Rightarrow> False
      | Some other \<Rightarrow>
          if typeid_callable other = typeid_callable (FunctionCaller f)
          then (if FunctionCaller_func other = f then True else False)
          else False)"
| "tryCompare (MethodCaller T ob m) otherCallable =
     (case otherCallable of
        None \<Rightarrow> False
      | Some otherPtr \<Rightarrow>
          if typeid_callable otherPtr = typeid_callable (MethodCaller T ob m)
          then (if MethodCaller_obj otherPtr = ob
                then (if MethodCaller_method otherPtr = m then True else False)
                else False)
          else False)"

section \<open>Callback\<close>

text \<open>
  A Callback object: its dynamic type, the flag and the buffer. The buffer is
  value-initialised (all zero bytes) by every constructor; \<open>None\<close> is that buffer with no
  object constructed in it, \<open>Some c\<close> the buffer after the placement new of \<open>c\<close>.
\<close>

record Callback =
  type_info :: signature
  callbackSet :: bool
  buffer :: "InternalCallable option"

definition Callback_default :: "signature \<Rightarrow> Callback" where
  "Callback_default s = \<lparr>type_info = s, callbackSet = False, buffer = None\<rparr>"

definition Callback_func :: "target \<Rightarrow> signature \<Rightarrow> fun_ptr \<Rightarrow> build_error + Callback" where
  "Callback_func t s f =
     (case checkSizeFit (CALLBACK_INTERNAL_BUFFER_SIZE t) (sizeof_FunctionCaller t) of
        Inl e \<Rightarrow> Inl e
      | Inr u \<Rightarrow>
          if f = nullptr
          then Inr \<lparr>type_info = s, callbackSet = False, buffer = None\<rparr>
          else Inr \<lparr>type_info = s, callbackSet = True, buffer = Some (FunctionCaller f)\<rparr>)"

definition Callback_method ::
  "target \<Rightarrow> signature \<Rightarrow> class_id \<Rightarrow> obj_ptr \<Rightarrow> method_ptr \<Rightarrow> build_error + Callback" where
  "Callback_method t s T ob m =
     (case checkSizeEqual (CALLBACK_INTERNAL_BUFFER_SIZE t) (sizeof_MethodCaller t T) of
        Inl e \<Rightarrow> Inl e
      | Inr u \<Rightarrow>
          if ob = nullptr \<or> m = nullptr
          then Inr \<lparr>type_info = s, callbackSet = False, buffer = None\<rparr>
          else Inr \<lparr>type_info = s, callbackSet = True, buffer = Some (MethodCaller T ob m)\<rparr>)"

definition isCallbackSet :: "Callback \<Rightarrow> bool" where
  "isCallbackSet this = callbackSet this"

text \<open>
  The comparisons exist in a build with \<open>CONFIG_CALLBACK_INCLUDE_POINT_TO_SAME\<close>. The
  first overload takes a Callback of the same template instance; the second any
  CallbackCompare, whose dynamic type it tests before the cast.
\<close>

definition pointToSame :: "Callback \<Rightarrow> Callback \<Rightarrow> bool option" where
  "pointToSame this other =
     (if \<not> callbackSet this
      then (if \<not> callbackSet other then Some True else Some False)
      else if callbackSet other
      then (case buffer this of
              None \<Rightarrow> None
            | Some c \<Rightarrow>
                (case buffer other of None \<Rightarrow> None | Some d \<Rightarrow> Some (tryCompare c (Some d))))
      else Some False)"

definition pointToSame_CallbackCompare :: "Callback \<Rightarrow> Callback \<Rightarrow> bool option" where
  "pointToSame_CallbackCompare this otherCallable =
     (if type_info otherCallable = type_info this
      then pointToSame this otherCallable
      else Some False)"

definition operator_eq :: "Callback \<Rightarrow> Callback \<Rightarrow> bool option" where
  "operator_eq this other = pointToSame this other"

definition operator_eq_CallbackCompare :: "Callback \<Rightarrow> Callback \<Rightarrow> bool option" where
  "operator_eq_CallbackCompare this otherCallable = pointToSame_CallbackCompare this otherCallable"

section \<open>The program around the Callbacks\<close>

text \<open>
  The state of the running program: its Callback objects, numbered (the number of an
  object is its address, the \<open>this\<close> of its member functions), and the rest
  \<open>'w\<close>. Code of the program may write either part; a Callback is copy-assignable.
\<close>

record 'w machine =
  callbacks :: "Callback list"
  world :: 'w

definition object_at :: "'w machine \<Rightarrow> nat \<Rightarrow> Callback option" where
  "object_at st this = (if this < length (callbacks st) then Some (callbacks st ! this) else None)"

datatype cpp_exception = cpp_exception string

text \<open>
  A piece of the program's own code changes the state and either returns a value
  (\<open>Inr\<close>) or throws (\<open>Inl\<close>).
\<close>

type_synonym ('v, 'w) effect = "'w machine \<Rightarrow> (cpp_exception + 'v) \<times> 'w machine"

text \<open>
  What a template instance \<open>Callback<R, ArgTs...>\<close> takes from the program, for the
  argument pack \<open>'a\<close> and the result type \<open>'r\<close>:
  \<^item> the body of the function behind a function address, and of the method of class
    \<open>T\<close> behind a member address (it takes the address of its object first); an
    address with nothing behind it is absent from the map;
  \<^item> the copy-initialisation of a by-value parameter pack from an argument pack (the
    copy constructors of \<open>ArgTs...\<close>, which may throw), and the destruction of such a
    parameter pack when its function is left (destructors do not throw);
  \<^item> the conversion \<open>(R)0\<close>.
\<close>

record ('a, 'r, 'w) program =
  function_at :: "fun_ptr \<rightharpoonup> ('a \<Rightarrow> ('r, 'w) effect)"
  method_at :: "class_id \<Rightarrow> method_ptr \<rightharpoonup> (obj_ptr \<Rightarrow> 'a \<Rightarrow> ('r, 'w) effect)"
  copy_args :: "'a \<Rightarrow> ('a, 'w) effect"
  destroy_args :: "'a \<Rightarrow> 'w machine \<Rightarrow> 'w machine"
  convert_zero :: "('r, 'w) effect"

text \<open>
  The result of an operation of the class: \<open>None\<close> is undefined behaviour (a call
  through a buffer in which nothing was constructed, through an address with no code
  behind it, or on an object that does not exist).
\<close>

type_synonym ('r, 'w) result = "((cpp_exception + 'r) \<times> 'w machine) option"

text \<open>
  Every function of the class takes \<open>ArgTs... args\<close> by value. Calling one with the
  pack \<open>args\<close> copy-initialises its parameters, runs its body on them, and destroys
  them when the body is left, by return or by exception. When a copy throws, the body
  is not entered.
\<close>

definition pass_by_value ::
  "('a, 'r, 'w) program \<Rightarrow> 'a \<Rightarrow> ('a \<Rightarrow> 'w machine \<Rightarrow> ('r, 'w) result) \<Rightarrow> 'w machine
     \<Rightarrow> ('r, 'w) result" where
  "pass_by_value P args body st =
     (case copy_args P args st of
        (Inl e, st1) \<Rightarrow> Some (Inl e, st1)
      | (Inr params, st1) \<Rightarrow>
          (case body params st1 of
             None \<Rightarrow> None
           | Some (res, st2) \<Rightarrow> Some (res, destroy_args P params st2)))"

text \<open>
  The call expressions \<open>(*_func)(args...)\<close> and \<open>(*_obj.*_method)(args...)\<close>: the
  plain calls \<open>f(args)\<close> and \<open>obj.method(args)\<close>.
\<close>

definition invoke_function ::
  "('a, 'r, 'w) program \<Rightarrow> ('a \<Rightarrow> ('r, 'w) effect) \<Rightarrow> 'a \<Rightarrow> 'w machine \<Rightarrow> ('r, 'w) result" where
  "invoke_function P code args st = pass_by_value P args (\<lambda>params s. Some (code params s)) st"

definition invoke_method ::
  "('a, 'r, 'w) program \<Rightarrow> (obj_ptr \<Rightarrow> 'a \<Rightarrow> ('r, 'w) effect) \<Rightarrow> obj_ptr \<Rightarrow> 'a \<Rightarrow> 'w machine
     \<Rightarrow> ('r, 'w) result" where
  "invoke_method P code ob args st =
     pass_by_value P args (\<lambda>params s. Some (code ob params s)) st"

text \<open>
  \<open>FunctionCaller::call\<close> and \<open>MethodCaller<T>::call\<close>, on the object in the buffer
  of the Callback \<open>this\<close>. They read their members after their parameters are
  initialised and test nothing for null.
\<close>

definition FunctionCaller_call ::
  "('a, 'r, 'w) program \<Rightarrow> nat \<Rightarrow> 'a \<Rightarrow> 'w machine \<Rightarrow> ('r, 'w) result" where
  "FunctionCaller_call P this args st =
     pass_by_value P args
       (\<lambda>params s.
          case object_at s this of
            None \<Rightarrow> None
          | Some cb \<Rightarrow>
              (case buffer cb of
                 Some (FunctionCaller f) \<Rightarrow>
                   (case function_at P f of
                      None \<Rightarrow> None
                    | Some code \<Rightarrow> invoke_function P code params s)
               | _ \<Rightarrow> None))
       st"

definition MethodCaller_call ::
  "('a, 'r, 'w) program \<Rightarrow> nat \<Rightarrow> 'a \<Rightarrow> 'w machine \<Rightarrow> ('r, 'w) result" where
  "MethodCaller_call P this args st =
     pass_by_value P args
       (\<lambda>params s.
          case object_at s this of
            None \<Rightarrow> None
          | Some cb \<Rightarrow>
              (case buffer cb of
                 Some (MethodCaller T ob m) \<Rightarrow>
                   (case method_at P T m of
                      None \<Rightarrow> None
                    | Some code \<Rightarrow> invoke_method P code ob params s)
               | _ \<Rightarrow> None))
       st"

text \<open>
  The virtual call \<open>((InternalCallable *)_buffer)->call(args...)\<close>: the class of the
  object in the buffer selects the implementation.
\<close>

definition InternalCallable_call ::
  "('a, 'r, 'w) program \<Rightarrow> nat \<Rightarrow> 'a \<Rightarrow> 'w machine \<Rightarrow> ('r, 'w) result" where
  "InternalCallable_call P this args st =
     (case object_at st this of
        None \<Rightarrow> None
      | Some cb \<Rightarrow>
          (case buffer cb of
             None \<Rightarrow> None
           | Some (FunctionCaller f) \<Rightarrow> FunctionCaller_call P this args st
           | Some (MethodCaller T ob m) \<Rightarrow> MethodCaller_call P this args st))"

text \<open>
  The two overloads of \<open>_call\<close>, chosen at compile time by \<open>std::is_same<RN, void>\<close>.
  The one for a result type other than \<open>void\<close> returns \<open>(RN)0\<close> when the flag is
  clear; the one for \<open>void\<close> then does nothing.
\<close>

definition private_call ::
  "('a, 'r, 'w) program \<Rightarrow> nat \<Rightarrow> 'a \<Rightarrow> 'w machine \<Rightarrow> ('r, 'w) result" where
  "private_call P this args st =
     pass_by_value P args
       (\<lambda>params s.
          case object_at s this of
            None \<Rightarrow> None
          | Some cb \<Rightarrow>
              if callbackSet cb then InternalCallable_call P this params s
              else Some (convert_zero P s))
       st"

definition private_call_void ::
  "('a, unit, 'w) program \<Rightarrow> nat \<Rightarrow> 'a \<Rightarrow> 'w machine \<Rightarrow> (unit, 'w) result" where
  "private_call_void P this args st =
     pass_by_value P args
       (\<lambda>params s.
          case object_at s this of
            None \<Rightarrow> None
          | Some cb \<Rightarrow>
              if callbackSet cb then InternalCallable_call P this params s
              else Some (Inr (), s))
       st"

text \<open>
  \<open>call\<close> forwards its parameters to \<open>_call\<close>, and \<open>operator()\<close> its parameters to
  \<open>call\<close>. The argument pack of the outermost call is an lvalue of the caller, so the
  parameters are copies of it. The result is returned as the prvalue it is.
\<close>

definition call ::
  "('a, 'r, 'w) program \<Rightarrow> nat \<Rightarrow> 'a \<Rightarrow> 'w machine \<Rightarrow> ('r, 'w) result" where
  "call P this args st = pass_by_value P args (\<lambda>params s. private_call P this params s) st"

definition call_void ::
  "('a, unit, 'w) program \<Rightarrow> nat \<Rightarrow> 'a \<Rightarrow> 'w machine \<Rightarrow> (unit, 'w) result" where
  "call_void P this args st =
     pass_by_value P args (\<lambda>params s. private_call_void P this params s) st"

definition operator_call ::
  "('a, 'r, 'w) program \<Rightarrow> nat \<Rightarrow> 'a \<Rightarrow> 'w machine \<Rightarrow> ('r, 'w) result" where
  "operator_call P this args st = pass_by_value P args (\<lambda>params s. call P this params s) st"

definition operator_call_void ::
  "('a, unit, 'w) program \<Rightarrow> nat \<Rightarrow> 'a \<Rightarrow> 'w machine \<Rightarrow> (unit, 'w) result" where
  "operator_call_void P this args st =
     pass_by_value P args (\<lambda>params s. call_void P this params s) st"

text \<open>
  Properties of the program's own code that the statements below name: the copy
  constructors and destructors of the argument types leave the Callback objects as they
  are; all of the program's code does; the argument types are trivially copyable (a
  copy is the value, with no effect, and its destruction has none); \<open>(R)0\<close> is the
  zero of an arithmetic or pointer type.
\<close>

definition copies_leave_callbacks :: "('a, 'r, 'w) program \<Rightarrow> bool" where
  "copies_leave_callbacks P =
     ((\<forall>a s. callbacks (snd (copy_args P a s)) = callbacks s)
      \<and> (\<forall>a s. callbacks (destroy_args P a s) = callbacks s))"

definition program_leaves_callbacks :: "('a, 'r, 'w) program \<Rightarrow> bool" where
  "program_leaves_callbacks P =
     (copies_leave_callbacks P
      \<and> (\<forall>s. callbacks (snd (convert_zero P s)) = callbacks s)
      \<and> (\<forall>f code a s. function_at P f = Some code \<longrightarrow> callbacks (snd (code a s)) = callbacks s)
      \<and> (\<forall>T m code ob a s.
            method_at P T m = Some code \<longrightarrow> callbacks (snd (code ob a s)) = callbacks s))"

definition trivially_copyable :: "('a, 'r, 'w) program \<Rightarrow> bool" where
  "trivially_copyable P =
     (copy_args P = (\<lambda>a s. (Inr a, s)) \<and> destroy_args P = (\<lambda>a s. s))"


section \<open>What the constructors establish\<close>

text \<open>
  The flag is set exactly when an object was constructed in the buffer, and that
  object holds no null address. Every constructor establishes this, and nothing but a
  constructor writes the two members.
\<close>

definition Callback_inv :: "Callback \<Rightarrow> bool" where
  "Callback_inv cb =
     (case buffer cb of
        None \<Rightarrow> \<not> callbackSet cb
      | Some (FunctionCaller f) \<Rightarrow> callbackSet cb \<and> f \<noteq> nullptr
      | Some (MethodCaller T ob m) \<Rightarrow> callbackSet cb \<and> ob \<noteq> nullptr \<and> m \<noteq> nullptr)"

text \<open>The addresses a constructed object holds lead to code of the program.\<close>

fun callable_valid :: "('a, 'r, 'w) program \<Rightarrow> InternalCallable \<Rightarrow> bool" where
  "callable_valid P (FunctionCaller f) =
     (case function_at P f of None \<Rightarrow> False | Some code \<Rightarrow> True)"
| "callable_valid P (MethodCaller T ob m) =
     (case method_at P T m of None \<Rightarrow> False | Some code \<Rightarrow> True)"

definition Callback_valid :: "('a, 'r, 'w) program \<Rightarrow> Callback \<Rightarrow> bool" where
  "Callback_valid P cb =
     (Callback_inv cb \<and> (case buffer cb of None \<Rightarrow> True | Some c \<Rightarrow> callable_valid P c))"

text \<open>\<open>sizeof\<close> of the object in the buffer.\<close>

fun sizeof_callable :: "target \<Rightarrow> InternalCallable \<Rightarrow> nat" where
  "sizeof_callable t (FunctionCaller f) = sizeof_FunctionCaller t"
| "sizeof_callable t (MethodCaller T ob m) = sizeof_MethodCaller t T"

section \<open>Identity of destinations, in the words of the specification\<close>

text \<open>
  Two Callbacks are bound to the same function address; to the same object address and
  the same method address; through the same class \<open>T\<close>.
\<close>

definition same_function_address :: "Callback \<Rightarrow> Callback \<Rightarrow> bool" where
  "same_function_address a b =
     (case (buffer a, buffer b) of
        (Some (FunctionCaller f), Some (FunctionCaller g)) \<Rightarrow> callbackSet a \<and> callbackSet b \<and> f = g
      | _ \<Rightarrow> False)"

definition same_object_method_pair :: "Callback \<Rightarrow> Callback \<Rightarrow> bool" where
  "same_object_method_pair a b =
     (case (buffer a, buffer b) of
        (Some (MethodCaller T ob m), Some (MethodCaller T' ob' m')) \<Rightarrow>
          callbackSet a \<and> callbackSet b \<and> ob = ob' \<and> m = m'
      | _ \<Rightarrow> False)"

definition same_object_class :: "Callback \<Rightarrow> Callback \<Rightarrow> bool" where
  "same_object_class a b =
     (case (buffer a, buffer b) of
        (Some (MethodCaller T ob m), Some (MethodCaller T' ob' m')) \<Rightarrow> T = T'
      | _ \<Rightarrow> False)"

definition both_unbound :: "Callback \<Rightarrow> Callback \<Rightarrow> bool" where
  "both_unbound a b = (\<not> isCallbackSet a \<and> \<not> isCallbackSet b)"

section \<open>Sequences of operations on the Callbacks of a program\<close>

text \<open>
  An operation names the objects it is applied to. \<open>call\<close> and \<open>operator()\<close> hand
  on the state that the copies, the destination and the destructions leave.
  \<open>isCallbackSet\<close>, \<open>pointToSame\<close> and \<open>operator==\<close> are \<open>const\<close>, take their
  operand by reference and run no code of the program: they read the objects and the
  state stays as it is. An operation on an object that does not exist, and one that is
  undefined behaviour, is \<open>None\<close>.
\<close>

datatype 'a operation =
    op_call nat 'a
  | op_paren nat 'a
  | op_isCallbackSet nat
  | op_pointToSame nat nat
  | op_pointToSame_CallbackCompare nat nat
  | op_eq nat nat
  | op_eq_CallbackCompare nat nat

datatype 'r outcome = returned 'r | thrown cpp_exception | answered bool

type_synonym ('a, 'r, 'w) caller = "nat \<Rightarrow> 'a \<Rightarrow> 'w machine \<Rightarrow> ('r, 'w) result"

definition compare_step ::
  "(Callback \<Rightarrow> Callback \<Rightarrow> bool option) \<Rightarrow> nat \<Rightarrow> nat \<Rightarrow> 'w machine
     \<Rightarrow> ('r outcome \<times> 'w machine) option" where
  "compare_step cmp i j st =
     (case object_at st i of
        None \<Rightarrow> None
      | Some a \<Rightarrow>
          (case object_at st j of
             None \<Rightarrow> None
           | Some b \<Rightarrow>
               (case cmp a b of
                  None \<Rightarrow> None
                | Some r \<Rightarrow> Some (answered r, st))))"

definition call_step ::
  "('a, 'r, 'w) caller \<Rightarrow> nat \<Rightarrow> 'a \<Rightarrow> 'w machine \<Rightarrow> ('r outcome \<times> 'w machine) option" where
  "call_step callf i args st =
     (case callf i args st of
        None \<Rightarrow> None
      | Some (Inl e, st') \<Rightarrow> Some (thrown e, st')
      | Some (Inr r, st') \<Rightarrow> Some (returned r, st'))"

text \<open>
  \<open>callf\<close> and \<open>parenf\<close> are \<open>call\<close> and \<open>operator()\<close> of the template instance:
  \<open>call P\<close> and \<open>operator_call P\<close> for a result type other than \<open>void\<close>,
  \<open>call_void P\<close> and \<open>operator_call_void P\<close> for \<open>void\<close>.
\<close>

fun exec ::
  "('a, 'r, 'w) caller \<Rightarrow> ('a, 'r, 'w) caller \<Rightarrow> 'a operation \<Rightarrow> 'w machine
     \<Rightarrow> ('r outcome \<times> 'w machine) option" where
  "exec callf parenf (op_call i args) st = call_step callf i args st"
| "exec callf parenf (op_paren i args) st = call_step parenf i args st"
| "exec callf parenf (op_isCallbackSet i) st =
     (case object_at st i of
        None \<Rightarrow> None
      | Some cb \<Rightarrow> Some (answered (isCallbackSet cb), st))"
| "exec callf parenf (op_pointToSame i j) st = compare_step pointToSame i j st"
| "exec callf parenf (op_pointToSame_CallbackCompare i j) st =
     compare_step pointToSame_CallbackCompare i j st"
| "exec callf parenf (op_eq i j) st = compare_step operator_eq i j st"
| "exec callf parenf (op_eq_CallbackCompare i j) st =
     compare_step operator_eq_CallbackCompare i j st"

fun run ::
  "('a, 'r, 'w) caller \<Rightarrow> ('a, 'r, 'w) caller \<Rightarrow> 'a operation list \<Rightarrow> 'w machine
     \<Rightarrow> ('r outcome list \<times> 'w machine) option" where
  "run callf parenf [] st = Some ([], st)"
| "run callf parenf (x # xs) st =
     (case exec callf parenf x st of
        None \<Rightarrow> None
      | Some (out, st') \<Rightarrow>
          (case run callf parenf xs st' of
             None \<Rightarrow> None
           | Some (outs, st'') \<Rightarrow> Some (out # outs, st'')))"

text \<open>The objects an operation names exist.\<close>

fun op_in_range :: "nat \<Rightarrow> 'a operation \<Rightarrow> bool" where
  "op_in_range n (op_call i args) = (i < n)"
| "op_in_range n (op_paren i args) = (i < n)"
| "op_in_range n (op_isCallbackSet i) = (i < n)"
| "op_in_range n (op_pointToSame i j) = (i < n \<and> j < n)"
| "op_in_range n (op_pointToSame_CallbackCompare i j) = (i < n \<and> j < n)"
| "op_in_range n (op_eq i j) = (i < n \<and> j < n)"
| "op_in_range n (op_eq_CallbackCompare i j) = (i < n \<and> j < n)"

text \<open>The operations that ask a Callback something without calling through it.\<close>

fun is_query :: "'a operation \<Rightarrow> bool" where
  "is_query (op_call i args) = False"
| "is_query (op_paren i args) = False"
| "is_query (op_isCallbackSet i) = True"
| "is_query (op_pointToSame i j) = True"
| "is_query (op_pointToSame_CallbackCompare i j) = True"
| "is_query (op_eq i j) = True"
| "is_query (op_eq_CallbackCompare i j) = True"

text \<open>What an operation answered, apart from the state it left.\<close>

definition outcome_of :: "('r outcome \<times> 'w machine) option \<Rightarrow> 'r outcome option" where
  "outcome_of res = (case res of None \<Rightarrow> None | Some (out, st) \<Rightarrow> Some out)"

section \<open>Small programs for concrete runs\<close>

text \<open>
  A 32-bit target whose FunctionCaller takes 8 bytes and whose MethodCaller takes 16,
  the signatures \<open>int(int, int)\<close> and \<open>void(int, int)\<close>, and a program with
  \<open>add\<close> at address 1 and, in class \<open>Counter\<close>, the method \<open>bump\<close> at member
  address 1; the state counts the calls made. Its arguments are trivially copyable.
\<close>

definition target32 :: target where
  "target32 = \<lparr>PC_BUILD = False, linux = False, LP64 = False, APPLE = False, MACH = False,
     sizeof_FunctionCaller = 8, sizeof_MethodCaller = (\<lambda>T. 16)\<rparr>"

definition int_int_int :: signature where
  "int_int_int = Signature ''int'' [''int'', ''int'']"

definition void_int_int :: signature where
  "void_int_int = Signature ''void'' [''int'', ''int'']"

definition add :: "int \<times> int \<Rightarrow> (int, nat) effect" where
  "add args st = (Inr (fst args + snd args), st\<lparr>world := Suc (world st)\<rparr>)"

definition bump :: "obj_ptr \<Rightarrow> int \<times> int \<Rightarrow> (int, nat) effect" where
  "bump this args st = (Inr (int this + fst args * snd args), st\<lparr>world := Suc (world st)\<rparr>)"

definition count_call :: "int \<times> int \<Rightarrow> (unit, nat) effect" where
  "count_call args st = (Inr (), st\<lparr>world := Suc (world st)\<rparr>)"

definition example_program :: "(int \<times> int, int, nat) program" where
  "example_program =
     \<lparr>function_at = [1 \<mapsto> add],
      method_at = (\<lambda>T. if T = ''Counter'' then [1 \<mapsto> bump] else Map.empty),
      copy_args = (\<lambda>a s. (Inr a, s)),
      destroy_args = (\<lambda>a s. s),
      convert_zero = (\<lambda>s. (Inr 0, s))\<rparr>"

definition example_program_void :: "(int \<times> int, unit, nat) program" where
  "example_program_void =
     \<lparr>function_at = [1 \<mapsto> count_call],
      method_at = (\<lambda>T. [1 \<mapsto> (\<lambda>this. count_call)]),
      copy_args = (\<lambda>a s. (Inr a, s)),
      destroy_args = (\<lambda>a s. s),
      convert_zero = (\<lambda>s. (Inr (), s))\<rparr>"






text \<open>
  A program whose function at address 1 assigns a default-constructed Callback to the
  Callback object 0 before it returns the sum of its arguments.
\<close>

definition reassigning_program :: "(int \<times> int, int, nat) program" where
  "reassigning_program =
     \<lparr>function_at =
        [1 \<mapsto> (\<lambda>args s. (Inr (fst args + snd args),
                 s\<lparr>callbacks := (callbacks s)[0 := Callback_default int_int_int]\<rparr>))],
      method_at = (\<lambda>T. Map.empty),
      copy_args = (\<lambda>a s. (Inr a, s)),
      destroy_args = (\<lambda>a s. s),
      convert_zero = (\<lambda>s. (Inr 0, s))\<rparr>"

definition bound_to_add :: Callback where
  "bound_to_add = \<lparr>type_info = int_int_int, callbackSet = True, buffer = Some (FunctionCaller 1)\<rparr>"

definition bound_to_bump :: Callback where
  "bound_to_bump =
     \<lparr>type_info = int_int_int, callbackSet = True, buffer = Some (MethodCaller ''Counter'' 64 1)\<rparr>"

text \<open>
  One object of class \<open>Derived\<close>, derived from \<open>Base\<close>, at address 64 (its
  \<open>Base\<close> part at the same address), and the method at member address 1 that
  \<open>Derived\<close> inherits from \<open>Base\<close>: the same object and the same method, reached
  once through \<open>Base\<close> and once through \<open>Derived\<close>.
\<close>

definition bound_via_Base :: Callback where
  "bound_via_Base =
     \<lparr>type_info = int_int_int, callbackSet = True, buffer = Some (MethodCaller ''Base'' 64 1)\<rparr>"

definition bound_via_Derived :: Callback where
  "bound_via_Derived =
     \<lparr>type_info = int_int_int, callbackSet = True, buffer = Some (MethodCaller ''Derived'' 64 1)\<rparr>"

text \<open>A Callback of the signature \<open>void(int, int)\<close> that holds the address 1 as well.\<close>

definition void_bound_to_1 :: Callback where
  "void_bound_to_1 =
     \<lparr>type_info = void_int_int, callbackSet = True, buffer = Some (FunctionCaller 1)\<rparr>"

text \<open>
  A 64-bit target built without \<open>PC_BUILD\<close>: the buffer has 16 bytes, a FunctionCaller
  takes 16 and a MethodCaller 32. The second target is the same with a FunctionCaller of
  24 bytes.
\<close>

definition target64 :: target where
  "target64 = \<lparr>PC_BUILD = False, linux = True, LP64 = True, APPLE = False, MACH = False,
     sizeof_FunctionCaller = 16, sizeof_MethodCaller = (\<lambda>T. 32)\<rparr>"

definition target64_wide :: target where
  "target64_wide = target64\<lparr>sizeof_FunctionCaller := 24\<rparr>"

text \<open>
  Three Callbacks of the signature \<open>int(int, int)\<close> and a sequence of operations on
  them; two Callbacks of the signature \<open>void(int, int)\<close> and a sequence on those; an
  unbound and a bound Callback in the program that counts copies.
\<close>

definition example_machine :: "nat machine" where
  "example_machine =
     \<lparr>callbacks = [bound_to_add, Callback_default int_int_int, bound_to_bump], world = 0\<rparr>"

definition example_operations :: "(int \<times> int) operation list" where
  "example_operations =
     [op_call 0 (2, 3), op_isCallbackSet 0, op_pointToSame 0 1, op_paren 2 (2, 3),
      op_eq 0 0, op_call 1 (2, 3), op_isCallbackSet 1]"

definition example_machine_void :: "nat machine" where
  "example_machine_void =
     \<lparr>callbacks = [void_bound_to_1, Callback_default void_int_int], world = 0\<rparr>"

definition example_operations_void :: "(int \<times> int) operation list" where
  "example_operations_void =
     [op_call 0 (2, 3), op_paren 1 (2, 3), op_eq_CallbackCompare 0 1, op_isCallbackSet 0]"




definition pair_machine :: "nat machine" where
  "pair_machine = \<lparr>callbacks = [bound_to_add, bound_to_add], world = 0\<rparr>"

definition reassigning_operations :: "(int \<times> int) operation list" where
  "reassigning_operations =
     [op_isCallbackSet 0, op_pointToSame 0 1, op_call 0 (2, 3), op_isCallbackSet 0,
      op_pointToSame 0 1]"

text \<open>
  Two properties of a function of the class, for the proofs: whenever it returns, the
  Callback objects are those it found; it returns in every state that has the given
  Callback objects.
\<close>

definition keeps_callbacks :: "('a \<Rightarrow> 'w machine \<Rightarrow> ('r, 'w) result) \<Rightarrow> bool" where
  "keeps_callbacks F =
     (\<forall>a st res st'. F a st = Some (res, st') \<longrightarrow> callbacks st' = callbacks st)"

definition defined_over :: "Callback list \<Rightarrow> ('a \<Rightarrow> 'w machine \<Rightarrow> ('r, 'w) result) \<Rightarrow> bool" where
  "defined_over C F = (\<forall>a st. callbacks st = C \<longrightarrow> (\<exists>r. F a st = Some r))"

section \<open>The constructors establish the invariant\<close>

lemma Callback_default_inv: "Callback_inv (Callback_default s)"
  by (simp add: Callback_default_def Callback_inv_def)

lemma Callback_func_inv: "Callback_func t s f = Inr cb \<Longrightarrow> Callback_inv cb"
  by (auto simp: Callback_func_def Callback_inv_def split: sum.splits if_splits)

lemma Callback_method_inv: "Callback_method t s T ob m = Inr cb \<Longrightarrow> Callback_inv cb"
  by (auto simp: Callback_method_def Callback_inv_def split: sum.splits if_splits)

text \<open>Conversely, every state that satisfies the invariant is one a constructor produces.\<close>

lemma Callback_inv_is_constructed:
  assumes "Callback_inv cb"
  shows "cb = Callback_default (type_info cb)
         \<or> (\<exists>f. f \<noteq> nullptr \<and> Callback_func target32 (type_info cb) f = Inr cb)
         \<or> (\<exists>T ob m. ob \<noteq> nullptr \<and> m \<noteq> nullptr
                \<and> Callback_method target32 (type_info cb) T ob m = Inr cb)"
proof (cases "buffer cb")
  case None
  with assms have "cb = Callback_default (type_info cb)"
    by (simp add: Callback_inv_def Callback_default_def)
  then show ?thesis ..
next
  case (Some c)
  show ?thesis
  proof (cases c)
    case (FunctionCaller f)
    with Some assms have "f \<noteq> nullptr \<and> Callback_func target32 (type_info cb) f = Inr cb"
      by (simp add: Callback_inv_def Callback_func_def checkSizeFit_def
          CALLBACK_INTERNAL_BUFFER_SIZE_def target32_def)
    then show ?thesis by blast
  next
    case (MethodCaller T ob m)
    with Some assms have "ob \<noteq> nullptr \<and> m \<noteq> nullptr
        \<and> Callback_method target32 (type_info cb) T ob m = Inr cb"
      by (simp add: Callback_inv_def Callback_method_def checkSizeEqual_def
          CALLBACK_INTERNAL_BUFFER_SIZE_def target32_def)
    then show ?thesis by blast
  qed
qed

lemma Callback_func_type_info: "Callback_func t s f = Inr cb \<Longrightarrow> type_info cb = s"
  by (auto simp: Callback_func_def split: sum.splits if_splits)

lemma Callback_method_type_info: "Callback_method t s T ob m = Inr cb \<Longrightarrow> type_info cb = s"
  by (auto simp: Callback_method_def split: sum.splits if_splits)

lemma target32_buffer_size: "CALLBACK_INTERNAL_BUFFER_SIZE target32 = 16"
  by (simp add: CALLBACK_INTERNAL_BUFFER_SIZE_def target32_def)

lemma target32_sizes:
  "sizeof_FunctionCaller target32 = 8" "sizeof_MethodCaller target32 T = 16"
  by (simp_all add: target32_def)

lemma target32_func:
  "Callback_func target32 s f =
     Inr (if f = nullptr then \<lparr>type_info = s, callbackSet = False, buffer = None\<rparr>
          else \<lparr>type_info = s, callbackSet = True, buffer = Some (FunctionCaller f)\<rparr>)"
  by (simp add: Callback_func_def checkSizeFit_def target32_buffer_size target32_sizes)

lemma target32_method:
  "Callback_method target32 s T ob m =
     Inr (if ob = nullptr \<or> m = nullptr then \<lparr>type_info = s, callbackSet = False, buffer = None\<rparr>
          else \<lparr>type_info = s, callbackSet = True, buffer = Some (MethodCaller T ob m)\<rparr>)"
  by (simp add: Callback_method_def checkSizeEqual_def target32_buffer_size target32_sizes)

section \<open>Passing by value\<close>

lemma object_at_callbacks: "callbacks s = callbacks st \<Longrightarrow> object_at s i = object_at st i"
  by (simp add: object_at_def)

lemma copy_leaves_callbacks:
  "copies_leave_callbacks P \<Longrightarrow> copy_args P a st = (res, st1) \<Longrightarrow> callbacks st1 = callbacks st"
  by (metis copies_leave_callbacks_def snd_conv)

lemma destroy_leaves_callbacks:
  "copies_leave_callbacks P \<Longrightarrow> callbacks (destroy_args P a st) = callbacks st"
  by (simp add: copies_leave_callbacks_def)



text \<open>
  Where the copies leave the Callback objects alone, a body matters only on the states
  that have the Callback objects of the state before the call.
\<close>

lemma pass_by_value_cong:
  assumes leave: "copies_leave_callbacks P"
    and agree: "\<And>p s. callbacks s = callbacks st \<Longrightarrow> body p s = body' p s"
  shows "pass_by_value P a body st = pass_by_value P a body' st"
proof (cases "copy_args P a st")
  case (Pair res st1)
  from copy_leaves_callbacks [OF leave Pair] have "callbacks st1 = callbacks st" .
  then have "body p st1 = body' p st1" for p
    by (rule agree)
  with Pair show ?thesis
    by (cases res) (simp_all add: pass_by_value_def)
qed

lemma pass_by_value_keeps:
  assumes leave: "copies_leave_callbacks P"
    and body: "\<And>p s res s'. callbacks s = callbacks st \<Longrightarrow> body p s = Some (res, s')
                 \<Longrightarrow> callbacks s' = callbacks st"
    and ran: "pass_by_value P a body st = Some (res, st')"
  shows "callbacks st' = callbacks st"
proof (cases "copy_args P a st")
  case (Pair copied st1)
  from copy_leaves_callbacks [OF leave Pair] have st1: "callbacks st1 = callbacks st" .
  show ?thesis
  proof (cases copied)
    case (Inl e)
    with Pair ran st1 show ?thesis
      by (simp add: pass_by_value_def)
  next
    case (Inr params)
    with Pair ran obtain st2 where inner: "body params st1 = Some (res, st2)"
      and st': "st' = destroy_args P params st2"
      by (auto simp: pass_by_value_def split: option.splits)
    from body [OF st1 inner] have "callbacks st2 = callbacks st" .
    with st' destroy_leaves_callbacks [OF leave] show ?thesis
      by simp
  qed
qed

lemma pass_by_value_defined:
  assumes leave: "copies_leave_callbacks P"
    and body: "\<And>p s. callbacks s = callbacks st \<Longrightarrow> \<exists>r. body p s = Some r"
  shows "\<exists>r. pass_by_value P a body st = Some r"
proof (cases "copy_args P a st")
  case (Pair copied st1)
  from copy_leaves_callbacks [OF leave Pair] have st1: "callbacks st1 = callbacks st" .
  show ?thesis
  proof (cases copied)
    case (Inl e)
    with Pair show ?thesis
      by (simp add: pass_by_value_def)
  next
    case (Inr params)
    from body [OF st1, of params] obtain r where "body params st1 = Some r"
      by blast
    with Pair Inr show ?thesis
      by (cases r) (simp add: pass_by_value_def)
  qed
qed

section \<open>A bound Callback reaches its destination\<close>




lemma private_call_void_bound:
  assumes leave: "copies_leave_callbacks P"
    and here: "object_at st i = Some cb"
    and bound: "callbackSet cb"
  shows "private_call_void P i a st = pass_by_value P a (InternalCallable_call P i) st"
  unfolding private_call_void_def
  by (rule pass_by_value_cong [OF leave])
    (simp add: object_at_callbacks [of _ st] here bound)







text \<open>
  The overloads for \<open>void\<close> are those for a result type whose \<open>(R)0\<close> is the empty
  value, and \<open>operator()\<close> is one more passing by value around \<open>call\<close>.
\<close>

lemma call_void_is_call:
  "call_void P i a st = call (P\<lparr>convert_zero := (\<lambda>s. (Inr (), s))\<rparr>) i a st"
proof -
  let ?P = "P\<lparr>convert_zero := (\<lambda>s. (Inr (), s))\<rparr>"
  have by_value: "pass_by_value ?P = pass_by_value P"
    by (intro ext) (simp add: pass_by_value_def split: prod.splits sum.splits option.splits)
  have invoke: "invoke_function ?P = invoke_function P" "invoke_method ?P = invoke_method P"
    by (intro ext, simp add: invoke_function_def invoke_method_def by_value)+
  have callers: "FunctionCaller_call ?P = FunctionCaller_call P"
    "MethodCaller_call ?P = MethodCaller_call P"
    by (intro ext, simp add: FunctionCaller_call_def MethodCaller_call_def by_value invoke
        cong: option.case_cong InternalCallable.case_cong)+
  have dispatch: "InternalCallable_call ?P = InternalCallable_call P"
    by (intro ext) (simp add: InternalCallable_call_def callers
        cong: option.case_cong InternalCallable.case_cong)
  have "private_call ?P = private_call_void P"
    by (intro ext) (simp add: private_call_def private_call_void_def by_value dispatch
        cong: option.case_cong if_cong)
  then show ?thesis
    by (simp add: call_def call_void_def by_value)
qed

lemma copies_leave_callbacks_update [simp]:
  "copies_leave_callbacks (P\<lparr>convert_zero := z\<rparr>) = copies_leave_callbacks P"
  by (simp add: copies_leave_callbacks_def)

lemma pass_by_value_update [simp]:
  "pass_by_value (P\<lparr>convert_zero := z\<rparr>) = pass_by_value P"
  by (intro ext) (simp add: pass_by_value_def split: prod.splits sum.splits option.splits)



lemma trivially_copyable_update [simp]:
  "trivially_copyable (P\<lparr>convert_zero := z\<rparr>) = trivially_copyable P"
  by (simp add: trivially_copyable_def)

lemma invoke_update [simp]:
  "invoke_function (P\<lparr>convert_zero := z\<rparr>) = invoke_function P"
  "invoke_method (P\<lparr>convert_zero := z\<rparr>) = invoke_method P"
  by (intro ext, simp add: invoke_function_def invoke_method_def)+





section \<open>Construction from a function\<close>



section \<open>Construction from an object and a method\<close>



section \<open>Construction from null\<close>

text \<open>
  C3. A Callback constructed from a null function pointer, or from an object and a
  method of which the object pointer or the method pointer is null, and a
  default-constructed Callback, has \<open>isCallbackSet() == false\<close> and no
  InternalCallable constructed in its buffer. (The constructors from a function and
  from a method exist where their static assertion holds.)
\<close>

theorem null_construction_is_unbound:
  "(\<not> isCallbackSet (Callback_default s) \<and> buffer (Callback_default s) = None)
   \<and> (sizeof_FunctionCaller t \<le> CALLBACK_INTERNAL_BUFFER_SIZE t \<longrightarrow>
        (\<exists>cb. Callback_func t s nullptr = Inr cb \<and> \<not> isCallbackSet cb \<and> buffer cb = None))
   \<and> (sizeof_MethodCaller t T = CALLBACK_INTERNAL_BUFFER_SIZE t \<longrightarrow>
        (\<exists>cb. Callback_method t s T nullptr m = Inr cb \<and> \<not> isCallbackSet cb \<and> buffer cb = None)
        \<and> (\<exists>cb. Callback_method t s T ob nullptr = Inr cb \<and> \<not> isCallbackSet cb \<and> buffer cb = None))
   \<and> (\<forall>cb. Callback_func t s nullptr = Inr cb \<longrightarrow> \<not> isCallbackSet cb \<and> buffer cb = None)
   \<and> (\<forall>cb. (ob = nullptr \<or> m = nullptr) \<and> Callback_method t s T ob m = Inr cb \<longrightarrow>
          \<not> isCallbackSet cb \<and> buffer cb = None)"
proof (intro conjI allI impI)
  show "\<not> isCallbackSet (Callback_default s)" "buffer (Callback_default s) = None"
    by (simp_all add: Callback_default_def isCallbackSet_def)
next
  assume "sizeof_FunctionCaller t \<le> CALLBACK_INTERNAL_BUFFER_SIZE t"
  then show "\<exists>cb. Callback_func t s nullptr = Inr cb \<and> \<not> isCallbackSet cb \<and> buffer cb = None"
    by (simp add: Callback_func_def checkSizeFit_def isCallbackSet_def)
next
  assume "sizeof_MethodCaller t T = CALLBACK_INTERNAL_BUFFER_SIZE t"
  then show "\<exists>cb. Callback_method t s T nullptr m = Inr cb \<and> \<not> isCallbackSet cb \<and> buffer cb = None"
    by (simp add: Callback_method_def checkSizeEqual_def isCallbackSet_def)
next
  assume "sizeof_MethodCaller t T = CALLBACK_INTERNAL_BUFFER_SIZE t"
  then show "\<exists>cb. Callback_method t s T ob nullptr = Inr cb \<and> \<not> isCallbackSet cb \<and> buffer cb = None"
    by (simp add: Callback_method_def checkSizeEqual_def isCallbackSet_def)
next
  fix cb
  assume built: "Callback_func t s nullptr = Inr cb"
  then have "cb = \<lparr>type_info = s, callbackSet = False, buffer = None\<rparr>"
    by (simp add: Callback_func_def split: sum.splits)
  then show "\<not> isCallbackSet cb" "buffer cb = None"
    by (simp_all add: isCallbackSet_def)
next
  fix cb
  assume built: "(ob = nullptr \<or> m = nullptr) \<and> Callback_method t s T ob m = Inr cb"
  then have "cb = \<lparr>type_info = s, callbackSet = False, buffer = None\<rparr>"
    by (auto simp: Callback_method_def split: sum.splits)
  then show "\<not> isCallbackSet cb" "buffer cb = None"
    by (simp_all add: isCallbackSet_def)
qed

theorem null_construction_is_unbound_witness:
  "Callback_func target32 int_int_int nullptr = Inr (Callback_default int_int_int)
   \<and> Callback_method target32 int_int_int ''Counter'' nullptr 1 = Inr (Callback_default int_int_int)
   \<and> Callback_method target32 int_int_int ''Counter'' 64 nullptr = Inr (Callback_default int_int_int)
   \<and> \<not> isCallbackSet (Callback_default int_int_int)
   \<and> buffer (Callback_default int_int_int) = None"
proof -
  have built: "Callback_func target32 int_int_int nullptr = Inr (Callback_default int_int_int)"
    "Callback_method target32 int_int_int ''Counter'' nullptr 1 = Inr (Callback_default int_int_int)"
    "Callback_method target32 int_int_int ''Counter'' 64 nullptr = Inr (Callback_default int_int_int)"
    by (simp_all add: target32_func target32_method Callback_default_def)
  from null_construction_is_unbound [of int_int_int target32 "''Counter''" 1 64]
  have "\<not> isCallbackSet (Callback_default int_int_int) \<and> buffer (Callback_default int_int_int) = None"
    by blast
  with built show ?thesis
    by simp
qed

section \<open>Calling an unbound Callback\<close>






section \<open>Comparing two Callbacks of one signature\<close>

lemma tryCompare_eq: "tryCompare c (Some d) = (c = d)"
  by (cases c; cases d) auto

lemma pointToSame_constructed:
  assumes "Callback_inv a" and "Callback_inv b"
  shows "pointToSame a b =
           Some ((\<not> callbackSet a \<and> \<not> callbackSet b)
                 \<or> (callbackSet a \<and> callbackSet b \<and> buffer a = buffer b))"
proof (cases "buffer a")
  case None
  with assms show ?thesis
    by (simp add: pointToSame_def Callback_inv_def)
next
  case a: (Some c)
  with assms(1) have set_a: "callbackSet a"
    by (cases c) (simp_all add: Callback_inv_def)
  show ?thesis
  proof (cases "buffer b")
    case None
    with assms(2) a set_a show ?thesis
      by (simp add: pointToSame_def Callback_inv_def)
  next
    case b: (Some d)
    with assms(2) have "callbackSet b"
      by (cases d) (simp_all add: Callback_inv_def)
    with a b set_a show ?thesis
      by (simp add: pointToSame_def tryCompare_eq)
  qed
qed

text \<open>
  C5, as stated: \<open>pointToSame\<close> is true iff both Callbacks are unbound, or both are
  bound to the same function address, or both are bound to the same (object, method)
  pair. It fails for the two Callbacks bound to the object at address 64 and the method
  at member address 1, one through class \<open>Base\<close> and one through class \<open>Derived\<close>:
  the object address and the method address agree, and \<open>pointToSame\<close> is false,
  because \<open>MethodCaller<T>::tryCompare\<close> tests \<open>typeid\<close> first and
  \<open>MethodCaller<Base>\<close> is not \<open>MethodCaller<Derived>\<close>.
\<close>

theorem pointToSame_same_pair_counterexample:
  "Callback_method target32 int_int_int ''Base'' 64 1 = Inr bound_via_Base
   \<and> Callback_method target32 int_int_int ''Derived'' 64 1 = Inr bound_via_Derived
   \<and> same_object_method_pair bound_via_Base bound_via_Derived
   \<and> pointToSame bound_via_Base bound_via_Derived = Some False
   \<and> pointToSame bound_via_Base bound_via_Derived \<noteq>
       Some (both_unbound bound_via_Base bound_via_Derived
             \<or> same_function_address bound_via_Base bound_via_Derived
             \<or> same_object_method_pair bound_via_Base bound_via_Derived)"
  by (simp add: target32_method bound_via_Base_def bound_via_Derived_def
      same_object_method_pair_def pointToSame_def)

text \<open>
  C5, amended: for every pair of constructed Callbacks of one signature,
  \<open>pointToSame\<close> and \<open>operator==\<close> return true iff both are unbound, or both are
  bound to the same function address, or both are bound through the same class \<open>T\<close>
  to the same (object, method) pair; any difference in bound status, kind of
  destination, function address, class, object address or method address yields false.
\<close>

theorem pointToSame_iff_same_destination:
  assumes "Callback_inv a" and "Callback_inv b"
  shows "pointToSame a b =
           Some (both_unbound a b \<or> same_function_address a b
                 \<or> (same_object_method_pair a b \<and> same_object_class a b))
         \<and> operator_eq a b = pointToSame a b"
proof -
  have "((\<not> callbackSet a \<and> \<not> callbackSet b)
          \<or> (callbackSet a \<and> callbackSet b \<and> buffer a = buffer b))
        = (both_unbound a b \<or> same_function_address a b
           \<or> (same_object_method_pair a b \<and> same_object_class a b))"
  proof (cases "buffer a")
    case None
    with assms(1) have "\<not> callbackSet a"
      by (simp add: Callback_inv_def)
    with None show ?thesis
      by (simp add: both_unbound_def isCallbackSet_def same_function_address_def
          same_object_method_pair_def)
  next
    case a: (Some c)
    with assms(1) have set_a: "callbackSet a"
      by (cases c) (simp_all add: Callback_inv_def)
    show ?thesis
    proof (cases "buffer b")
      case None
      with a set_a show ?thesis
        by (cases c) (simp_all add: both_unbound_def isCallbackSet_def
            same_function_address_def same_object_method_pair_def)
    next
      case b: (Some d)
      with assms(2) have "callbackSet b"
        by (cases d) (simp_all add: Callback_inv_def)
      with a b set_a show ?thesis
        by (cases c; cases d) (auto simp: both_unbound_def isCallbackSet_def
            same_function_address_def same_object_method_pair_def same_object_class_def)
    qed
  qed
  with pointToSame_constructed [OF assms] show ?thesis
    by (simp add: operator_eq_def)
qed

theorem pointToSame_iff_same_destination_witness:
  "Callback_inv bound_to_add \<and> Callback_inv bound_to_bump
   \<and> Callback_inv bound_via_Base \<and> Callback_inv (Callback_default int_int_int)
   \<and> pointToSame bound_to_add bound_to_add = Some True
   \<and> pointToSame bound_to_bump bound_to_bump = Some True
   \<and> pointToSame bound_to_add bound_to_bump = Some False
   \<and> pointToSame bound_to_bump bound_via_Base = Some False
   \<and> pointToSame (Callback_default int_int_int) (Callback_default int_int_int) = Some True
   \<and> pointToSame (Callback_default int_int_int) bound_to_add = Some False"
proof -
  have inv: "Callback_inv bound_to_add" "Callback_inv bound_to_bump"
    "Callback_inv bound_via_Base" "Callback_inv (Callback_default int_int_int)"
    by (simp_all add: Callback_inv_def bound_to_add_def bound_to_bump_def bound_via_Base_def
        Callback_default_def)
  note same = pointToSame_iff_same_destination
  have "pointToSame bound_to_add bound_to_add = Some True"
    using same [OF inv(1) inv(1)]
    by (simp add: same_function_address_def bound_to_add_def)
  moreover have "pointToSame bound_to_bump bound_to_bump = Some True"
    using same [OF inv(2) inv(2)]
    by (simp add: same_object_method_pair_def same_object_class_def bound_to_bump_def)
  moreover have "pointToSame bound_to_add bound_to_bump = Some False"
    using same [OF inv(1) inv(2)]
    by (simp add: same_function_address_def same_object_method_pair_def both_unbound_def
        isCallbackSet_def bound_to_add_def bound_to_bump_def)
  moreover have "pointToSame bound_to_bump bound_via_Base = Some False"
    using same [OF inv(2) inv(3)]
    by (simp add: same_function_address_def same_object_method_pair_def same_object_class_def
        both_unbound_def isCallbackSet_def bound_to_bump_def bound_via_Base_def)
  moreover have "pointToSame (Callback_default int_int_int) (Callback_default int_int_int) = Some True"
    using same [OF inv(4) inv(4)]
    by (simp add: both_unbound_def isCallbackSet_def Callback_default_def)
  moreover have "pointToSame (Callback_default int_int_int) bound_to_add = Some False"
    using same [OF inv(4) inv(1)]
    by (simp add: same_function_address_def same_object_method_pair_def both_unbound_def
        isCallbackSet_def bound_to_add_def Callback_default_def)
  ultimately show ?thesis
    using inv by simp
qed

section \<open>Comparing with a Callback of another signature\<close>

text \<open>
  C6. Comparing a Callback with a CallbackCompare whose dynamic type is another
  template instance returns false, never an error, whatever addresses the two hold:
  \<open>typeid\<close> is tested before the buffers are looked at.
\<close>

theorem other_signature_is_unequal:
  assumes "type_info otherCallable \<noteq> type_info this"
  shows "pointToSame_CallbackCompare this otherCallable = Some False
         \<and> operator_eq_CallbackCompare this otherCallable = Some False"
  using assms
  by (simp add: pointToSame_CallbackCompare_def operator_eq_CallbackCompare_def)

theorem other_signature_is_unequal_witness:
  "type_info void_bound_to_1 \<noteq> type_info bound_to_add
   \<and> buffer void_bound_to_1 = buffer bound_to_add
   \<and> pointToSame_CallbackCompare bound_to_add void_bound_to_1 = Some False
   \<and> operator_eq_CallbackCompare bound_to_add void_bound_to_1 = Some False"
proof -
  have differ: "type_info void_bound_to_1 \<noteq> type_info bound_to_add"
    by (simp add: void_bound_to_1_def bound_to_add_def void_int_int_def int_int_int_def)
  have "buffer void_bound_to_1 = buffer bound_to_add"
    by (simp add: void_bound_to_1_def bound_to_add_def)
  with differ other_signature_is_unequal [OF differ] show ?thesis
    by simp
qed

section \<open>The static assertions\<close>

text \<open>
  C8. The build rejects the constructor from a function when the FunctionCaller is
  larger than the buffer, and the constructor from a method when the MethodCaller of
  the object's class has not exactly the size of the buffer; so the object a
  constructed Callback holds in its buffer is never larger than the buffer.
\<close>

theorem static_asserts_guard_the_buffer:
  "(CALLBACK_INTERNAL_BUFFER_SIZE t < sizeof_FunctionCaller t \<longrightarrow>
      Callback_func t s f = Inl (static_assert_failed ''Internal Buffer is too small!''))
   \<and> (sizeof_MethodCaller t T \<noteq> CALLBACK_INTERNAL_BUFFER_SIZE t \<longrightarrow>
      (\<exists>e. Callback_method t s T ob m = Inl e))
   \<and> (\<forall>cb c. Callback_func t s f = Inr cb \<and> buffer cb = Some c \<longrightarrow>
          sizeof_callable t c \<le> CALLBACK_INTERNAL_BUFFER_SIZE t)
   \<and> (\<forall>cb c. Callback_method t s T ob m = Inr cb \<and> buffer cb = Some c \<longrightarrow>
          sizeof_callable t c = CALLBACK_INTERNAL_BUFFER_SIZE t)"
proof (intro conjI allI impI)
  assume "CALLBACK_INTERNAL_BUFFER_SIZE t < sizeof_FunctionCaller t"
  then show "Callback_func t s f = Inl (static_assert_failed ''Internal Buffer is too small!'')"
    by (simp add: Callback_func_def checkSizeFit_def)
next
  assume "sizeof_MethodCaller t T \<noteq> CALLBACK_INTERNAL_BUFFER_SIZE t"
  then show "\<exists>e. Callback_method t s T ob m = Inl e"
    by (simp add: Callback_method_def checkSizeEqual_def)
next
  fix cb c
  assume built: "Callback_func t s f = Inr cb \<and> buffer cb = Some c"
  then have fits: "sizeof_FunctionCaller t \<le> CALLBACK_INTERNAL_BUFFER_SIZE t"
    by (auto simp: Callback_func_def checkSizeFit_def split: if_splits)
  from built have "c = FunctionCaller f"
    by (auto simp: Callback_func_def split: sum.splits if_splits)
  with fits show "sizeof_callable t c \<le> CALLBACK_INTERNAL_BUFFER_SIZE t"
    by simp
next
  fix cb c
  assume built: "Callback_method t s T ob m = Inr cb \<and> buffer cb = Some c"
  then have exact: "sizeof_MethodCaller t T = CALLBACK_INTERNAL_BUFFER_SIZE t"
    by (auto simp: Callback_method_def checkSizeEqual_def split: if_splits)
  from built have "c = MethodCaller T ob m"
    by (auto simp: Callback_method_def split: sum.splits if_splits)
  with exact show "sizeof_callable t c = CALLBACK_INTERNAL_BUFFER_SIZE t"
    by simp
qed

theorem static_asserts_guard_the_buffer_witness:
  "Callback_func target64_wide int_int_int 1 =
      Inl (static_assert_failed ''Internal Buffer is too small!'')
   \<and> Callback_method target64 int_int_int ''Counter'' 64 1 =
      Inl (static_assert_failed ''Internal Buffer is too small!'')
   \<and> Callback_func target32 int_int_int 1 = Inr bound_to_add
   \<and> sizeof_callable target32 (FunctionCaller 1) \<le> CALLBACK_INTERNAL_BUFFER_SIZE target32
   \<and> Callback_method target32 int_int_int ''Counter'' 64 1 = Inr bound_to_bump
   \<and> sizeof_callable target32 (MethodCaller ''Counter'' 64 1) = CALLBACK_INTERNAL_BUFFER_SIZE target32"
proof -
  have wide: "CALLBACK_INTERNAL_BUFFER_SIZE target64_wide < sizeof_FunctionCaller target64_wide"
    by (simp add: target64_wide_def target64_def CALLBACK_INTERNAL_BUFFER_SIZE_def)
  have rejected: "Callback_method target64 int_int_int ''Counter'' 64 1 =
      Inl (static_assert_failed ''Internal Buffer is too small!'')"
    by (simp add: Callback_method_def checkSizeEqual_def target64_def
        CALLBACK_INTERNAL_BUFFER_SIZE_def)
  have add: "Callback_func target32 int_int_int 1 = Inr bound_to_add \<and>
      buffer bound_to_add = Some (FunctionCaller 1)"
    by (simp add: target32_func bound_to_add_def)
  have bump: "Callback_method target32 int_int_int ''Counter'' 64 1 = Inr bound_to_bump \<and>
      buffer bound_to_bump = Some (MethodCaller ''Counter'' 64 1)"
    by (simp add: target32_method bound_to_bump_def)
  from static_asserts_guard_the_buffer [of target64_wide int_int_int 1 "''Counter''" 64 1] wide
  have "Callback_func target64_wide int_int_int 1 =
      Inl (static_assert_failed ''Internal Buffer is too small!'')"
    by blast
  moreover
  from static_asserts_guard_the_buffer [of target32 int_int_int 1 "''Counter''" 64 1] add bump
  have "sizeof_callable target32 (FunctionCaller 1) \<le> CALLBACK_INTERNAL_BUFFER_SIZE target32"
    and "sizeof_callable target32 (MethodCaller ''Counter'' 64 1)
           = CALLBACK_INTERNAL_BUFFER_SIZE target32"
    by blast+
  ultimately show ?thesis
    using rejected add bump by simp
qed

section \<open>tryCompare\<close>

text \<open>
  C9. \<open>tryCompare\<close> guards itself: for a FunctionCaller and for a MethodCaller it
  returns false when the other pointer is null, and false when the object it points to
  is of another class than its own, since each implementation tests \<open>typeid\<close> before
  it compares a member.
\<close>

theorem tryCompare_guards_itself:
  "tryCompare c None = False
   \<and> (typeid_callable d \<noteq> typeid_callable c \<longrightarrow> tryCompare c (Some d) = False)"
  by (cases c; cases d) auto

theorem tryCompare_guards_itself_witness:
  "tryCompare (FunctionCaller 1) None = False
   \<and> tryCompare (MethodCaller ''Counter'' 64 1) None = False
   \<and> tryCompare (FunctionCaller 1) (Some (MethodCaller ''Counter'' 1 1)) = False
   \<and> tryCompare (MethodCaller ''Counter'' 1 1) (Some (FunctionCaller 1)) = False
   \<and> tryCompare (MethodCaller ''Base'' 64 1) (Some (MethodCaller ''Derived'' 64 1)) = False"
proof -
  have "typeid_callable (MethodCaller ''Counter'' 1 1) \<noteq> typeid_callable (FunctionCaller 1)"
    and "typeid_callable (FunctionCaller 1) \<noteq> typeid_callable (MethodCaller ''Counter'' 1 1)"
    and "typeid_callable (MethodCaller ''Derived'' 64 1) \<noteq> typeid_callable (MethodCaller ''Base'' 64 1)"
    by simp_all
  with tryCompare_guards_itself [of "FunctionCaller 1" "MethodCaller ''Counter'' 1 1"]
    tryCompare_guards_itself [of "MethodCaller ''Counter'' 1 1" "FunctionCaller 1"]
    tryCompare_guards_itself [of "MethodCaller ''Base'' 64 1" "MethodCaller ''Derived'' 64 1"]
    tryCompare_guards_itself [of "MethodCaller ''Counter'' 64 1" "FunctionCaller 1"]
  show ?thesis
    by blast
qed

section \<open>Symmetry\<close>

text \<open>
  C10. Comparison of two Callbacks of one signature is symmetric:
  \<open>a.pointToSame(b)\<close> returns what \<open>b.pointToSame(a)\<close> returns, and so does
  \<open>operator==\<close>.
\<close>

theorem pointToSame_symmetric:
  "pointToSame a b = pointToSame b a \<and> operator_eq a b = operator_eq b a"
proof -
  have "tryCompare c (Some d) = tryCompare d (Some c)" for c d
    by (simp only: tryCompare_eq eq_commute)
  then have "pointToSame a b = pointToSame b a"
    by (simp add: pointToSame_def split: option.splits)
  then show ?thesis
    by (simp add: operator_eq_def)
qed

theorem pointToSame_symmetric_witness:
  "pointToSame bound_to_add bound_to_bump = Some False
   \<and> pointToSame bound_to_bump bound_to_add = Some False
   \<and> pointToSame bound_to_add bound_to_bump = pointToSame bound_to_bump bound_to_add"
proof -
  have "pointToSame bound_to_add bound_to_bump = Some False"
    by (simp add: pointToSame_def bound_to_add_def bound_to_bump_def)
  with pointToSame_symmetric [of bound_to_add bound_to_bump] show ?thesis
    by simp
qed

section \<open>Operations and the binding\<close>

subsection \<open>The functions of the class write no Callback themselves\<close>

lemma keeps_pass_by_value:
  assumes leave: "copies_leave_callbacks P" and body: "keeps_callbacks body"
  shows "keeps_callbacks (\<lambda>a. pass_by_value P a body)"
  unfolding keeps_callbacks_def
proof (intro allI impI)
  fix a st res st'
  assume ran: "pass_by_value P a body st = Some (res, st')"
  show "callbacks st' = callbacks st"
  proof (rule pass_by_value_keeps [OF leave _ ran])
    fix p s r s'
    assume "callbacks s = callbacks st" and "body p s = Some (r, s')"
    with body show "callbacks s' = callbacks st"
      by (simp add: keeps_callbacks_def)
  qed
qed

lemma keeps_invoke_function:
  assumes "program_leaves_callbacks P" and "function_at P f = Some code"
  shows "keeps_callbacks (invoke_function P code)"
proof -
  from assms have "callbacks (snd (code a s)) = callbacks s" for a s
    by (simp add: program_leaves_callbacks_def)
  then have "keeps_callbacks (\<lambda>p s. Some (code p s))"
    unfolding keeps_callbacks_def by (metis option.inject snd_conv)
  with assms(1) have "keeps_callbacks (\<lambda>a. pass_by_value P a (\<lambda>p s. Some (code p s)))"
    by (intro keeps_pass_by_value) (simp_all add: program_leaves_callbacks_def)
  then show ?thesis
    by (simp add: keeps_callbacks_def invoke_function_def)
qed

lemma keeps_invoke_method:
  assumes "program_leaves_callbacks P" and "method_at P T m = Some code"
  shows "keeps_callbacks (invoke_method P code ob)"
proof -
  from assms have "callbacks (snd (code ob a s)) = callbacks s" for a s
    by (simp add: program_leaves_callbacks_def)
  then have "keeps_callbacks (\<lambda>p s. Some (code ob p s))"
    unfolding keeps_callbacks_def by (metis option.inject snd_conv)
  with assms(1) have "keeps_callbacks (\<lambda>a. pass_by_value P a (\<lambda>p s. Some (code ob p s)))"
    by (intro keeps_pass_by_value) (simp_all add: program_leaves_callbacks_def)
  then show ?thesis
    by (simp add: keeps_callbacks_def invoke_method_def)
qed

lemma keeps_FunctionCaller_call:
  assumes leaves: "program_leaves_callbacks P"
  shows "keeps_callbacks (FunctionCaller_call P i)"
proof -
  let ?body = "\<lambda>params s.
      case object_at s i of
        None \<Rightarrow> None
      | Some cb \<Rightarrow>
          (case buffer cb of
             Some (FunctionCaller f) \<Rightarrow>
               (case function_at P f of
                  None \<Rightarrow> None
                | Some code \<Rightarrow> invoke_function P code params s)
           | _ \<Rightarrow> None)"
  have "keeps_callbacks ?body"
    unfolding keeps_callbacks_def
  proof (intro allI impI)
    fix a st res st'
    assume ran: "?body a st = Some (res, st')"
    then obtain f code where "function_at P f = Some code"
      and "invoke_function P code a st = Some (res, st')"
      by (auto split: option.splits InternalCallable.splits)
    with keeps_invoke_function [OF leaves] show "callbacks st' = callbacks st"
      by (simp add: keeps_callbacks_def)
  qed
  with leaves have "keeps_callbacks (\<lambda>a. pass_by_value P a ?body)"
    by (intro keeps_pass_by_value) (simp_all add: program_leaves_callbacks_def)
  then show ?thesis
    by (simp add: keeps_callbacks_def FunctionCaller_call_def)
qed

lemma keeps_MethodCaller_call:
  assumes leaves: "program_leaves_callbacks P"
  shows "keeps_callbacks (MethodCaller_call P i)"
proof -
  let ?body = "\<lambda>params s.
      case object_at s i of
        None \<Rightarrow> None
      | Some cb \<Rightarrow>
          (case buffer cb of
             Some (MethodCaller T ob m) \<Rightarrow>
               (case method_at P T m of
                  None \<Rightarrow> None
                | Some code \<Rightarrow> invoke_method P code ob params s)
           | _ \<Rightarrow> None)"
  have "keeps_callbacks ?body"
    unfolding keeps_callbacks_def
  proof (intro allI impI)
    fix a st res st'
    assume ran: "?body a st = Some (res, st')"
    then obtain T m code ob where "method_at P T m = Some code"
      and "invoke_method P code ob a st = Some (res, st')"
      by (auto split: option.splits InternalCallable.splits)
    with keeps_invoke_method [OF leaves] show "callbacks st' = callbacks st"
      by (simp add: keeps_callbacks_def)
  qed
  with leaves have "keeps_callbacks (\<lambda>a. pass_by_value P a ?body)"
    by (intro keeps_pass_by_value) (simp_all add: program_leaves_callbacks_def)
  then show ?thesis
    by (simp add: keeps_callbacks_def MethodCaller_call_def)
qed

lemma keeps_InternalCallable_call:
  assumes leaves: "program_leaves_callbacks P"
  shows "keeps_callbacks (InternalCallable_call P i)"
  unfolding keeps_callbacks_def
proof (intro allI impI)
  fix a st res st'
  assume "InternalCallable_call P i a st = Some (res, st')"
  then have "FunctionCaller_call P i a st = Some (res, st')
      \<or> MethodCaller_call P i a st = Some (res, st')"
    by (auto simp: InternalCallable_call_def split: option.splits InternalCallable.splits)
  with keeps_FunctionCaller_call [OF leaves, of i] keeps_MethodCaller_call [OF leaves, of i]
  show "callbacks st' = callbacks st"
    by (auto simp: keeps_callbacks_def)
qed

lemma keeps_private_call:
  assumes leaves: "program_leaves_callbacks P"
  shows "keeps_callbacks (private_call P i)"
proof -
  let ?body = "\<lambda>params s.
      case object_at s i of
        None \<Rightarrow> None
      | Some cb \<Rightarrow>
          if callbackSet cb then InternalCallable_call P i params s
          else Some (convert_zero P s)"
  have "keeps_callbacks ?body"
    unfolding keeps_callbacks_def
  proof (intro allI impI)
    fix a st res st'
    assume "?body a st = Some (res, st')"
    then have "InternalCallable_call P i a st = Some (res, st')
        \<or> convert_zero P st = (res, st')"
      by (auto split: option.splits if_splits)
    then show "callbacks st' = callbacks st"
    proof
      assume "InternalCallable_call P i a st = Some (res, st')"
      with keeps_InternalCallable_call [OF leaves, of i] show ?thesis
        by (simp add: keeps_callbacks_def)
    next
      assume "convert_zero P st = (res, st')"
      with leaves show ?thesis
        by (metis program_leaves_callbacks_def snd_conv)
    qed
  qed
  with leaves have "keeps_callbacks (\<lambda>a. pass_by_value P a ?body)"
    by (intro keeps_pass_by_value) (simp_all add: program_leaves_callbacks_def)
  then show ?thesis
    by (simp add: keeps_callbacks_def private_call_def)
qed

lemma keeps_call:
  assumes leaves: "program_leaves_callbacks P"
  shows "keeps_callbacks (call P i)"
proof -
  from leaves keeps_private_call [OF leaves, of i]
  have "keeps_callbacks (\<lambda>a. pass_by_value P a (private_call P i))"
    by (intro keeps_pass_by_value) (simp_all add: program_leaves_callbacks_def)
  then show ?thesis
    by (simp add: keeps_callbacks_def call_def)
qed

lemma keeps_operator_call:
  assumes leaves: "program_leaves_callbacks P"
  shows "keeps_callbacks (operator_call P i)"
proof -
  from leaves keeps_call [OF leaves, of i]
  have "keeps_callbacks (\<lambda>a. pass_by_value P a (call P i))"
    by (intro keeps_pass_by_value) (simp_all add: program_leaves_callbacks_def)
  then show ?thesis
    by (simp add: keeps_callbacks_def operator_call_def)
qed

lemma program_leaves_callbacks_void:
  fixes P :: "('a, unit, 'w) program"
  assumes "program_leaves_callbacks P"
  shows "program_leaves_callbacks (P\<lparr>convert_zero := (\<lambda>s. (Inr (), s))\<rparr>)"
  using assms by (simp add: program_leaves_callbacks_def)

lemma keeps_call_void:
  assumes leaves: "program_leaves_callbacks P"
  shows "keeps_callbacks (call_void P i)"
  using keeps_call [OF program_leaves_callbacks_void [OF leaves], of i]
  by (simp add: keeps_callbacks_def call_void_is_call)

lemma keeps_operator_call_void:
  assumes leaves: "program_leaves_callbacks P"
  shows "keeps_callbacks (operator_call_void P i)"
proof -
  from leaves keeps_call_void [OF leaves, of i]
  have "keeps_callbacks (\<lambda>a. pass_by_value P a (call_void P i))"
    by (intro keeps_pass_by_value) (simp_all add: program_leaves_callbacks_def)
  then show ?thesis
    by (simp add: keeps_callbacks_def operator_call_void_def)
qed

subsection \<open>The functions of the class return on constructed Callbacks\<close>

lemma defined_pass_by_value:
  fixes P :: "('a, 'r, 'w) program"
  assumes leave: "copies_leave_callbacks P" and body: "defined_over C body"
  shows "defined_over C (\<lambda>a. pass_by_value P a body)"
  unfolding defined_over_def
proof (intro allI impI)
  fix a and st :: "'w machine"
  assume C: "callbacks st = C"
  show "\<exists>r. pass_by_value P a body st = Some r"
  proof (rule pass_by_value_defined [OF leave])
    fix p and s :: "'w machine"
    assume "callbacks s = callbacks st"
    with C body show "\<exists>r. body p s = Some r"
      by (simp add: defined_over_def)
  qed
qed

lemma defined_invoke:
  assumes leave: "copies_leave_callbacks P"
  shows "defined_over C (invoke_function P code)" and "defined_over C (invoke_method P mcode ob)"
proof -
  have "defined_over C (\<lambda>p s. Some (code p s))" and "defined_over C (\<lambda>p s. Some (mcode ob p s))"
    by (simp_all add: defined_over_def)
  from this [THEN defined_pass_by_value [OF leave]]
  show "defined_over C (invoke_function P code)" and "defined_over C (invoke_method P mcode ob)"
    by (simp_all add: defined_over_def invoke_function_def invoke_method_def)
qed

lemma object_at_in_range:
  "callbacks s = C \<Longrightarrow> i < length C \<Longrightarrow> object_at s i = Some (C ! i)"
  by (simp add: object_at_def)

lemma defined_InternalCallable_call:
  assumes leave: "copies_leave_callbacks P"
    and range: "i < length C"
    and holds: "buffer (C ! i) = Some c"
    and valid: "callable_valid P c"
  shows "defined_over C (InternalCallable_call P i)"
proof (cases c)
  case (FunctionCaller f)
  with valid obtain code where code: "function_at P f = Some code"
    by (auto split: option.splits)
  have "defined_over C (\<lambda>params s.
      case object_at s i of
        None \<Rightarrow> None
      | Some cb \<Rightarrow>
          (case buffer cb of
             Some (FunctionCaller f) \<Rightarrow>
               (case function_at P f of
                  None \<Rightarrow> None
                | Some code \<Rightarrow> invoke_function P code params s)
           | _ \<Rightarrow> None))"
    using defined_invoke(1) [OF leave, of C code] range holds FunctionCaller code
    by (simp add: defined_over_def object_at_in_range)
  from defined_pass_by_value [OF leave this]
  have "defined_over C (FunctionCaller_call P i)"
    by (simp add: defined_over_def FunctionCaller_call_def)
  with range holds FunctionCaller show ?thesis
    by (simp add: defined_over_def InternalCallable_call_def object_at_in_range)
next
  case (MethodCaller T ob m)
  with valid obtain code where code: "method_at P T m = Some code"
    by (auto split: option.splits)
  have "defined_over C (\<lambda>params s.
      case object_at s i of
        None \<Rightarrow> None
      | Some cb \<Rightarrow>
          (case buffer cb of
             Some (MethodCaller T ob m) \<Rightarrow>
               (case method_at P T m of
                  None \<Rightarrow> None
                | Some code \<Rightarrow> invoke_method P code ob params s)
           | _ \<Rightarrow> None))"
    using defined_invoke(2) [OF leave, of C code ob] range holds MethodCaller code
    by (simp add: defined_over_def object_at_in_range)
  from defined_pass_by_value [OF leave this]
  have "defined_over C (MethodCaller_call P i)"
    by (simp add: defined_over_def MethodCaller_call_def)
  with range holds MethodCaller show ?thesis
    by (simp add: defined_over_def InternalCallable_call_def object_at_in_range)
qed

lemma defined_call:
  assumes leave: "copies_leave_callbacks P"
    and range: "i < length C"
    and valid: "Callback_valid P (C ! i)"
  shows "defined_over C (call P i)" and "defined_over C (operator_call P i)"
proof -
  have body: "defined_over C (\<lambda>params s.
      case object_at s i of
        None \<Rightarrow> None
      | Some cb \<Rightarrow>
          if callbackSet cb then InternalCallable_call P i params s
          else Some (convert_zero P s))"
  proof (cases "buffer (C ! i)")
    case None
    with valid have "\<not> callbackSet (C ! i)"
      by (simp add: Callback_valid_def Callback_inv_def)
    with range show ?thesis
      by (simp add: defined_over_def object_at_in_range)
  next
    case (Some c)
    with valid have "callable_valid P c"
      by (simp add: Callback_valid_def)
    from defined_InternalCallable_call [OF leave range Some this] range show ?thesis
      by (simp add: defined_over_def object_at_in_range)
  qed
  from defined_pass_by_value [OF leave body]
  have "defined_over C (private_call P i)"
    by (simp add: defined_over_def private_call_def)
  from defined_pass_by_value [OF leave this]
  show call: "defined_over C (call P i)"
    by (simp add: defined_over_def call_def)
  from defined_pass_by_value [OF leave call]
  show "defined_over C (operator_call P i)"
    by (simp add: defined_over_def operator_call_def)
qed

lemma Callback_valid_update [simp]:
  "Callback_valid (P\<lparr>convert_zero := z\<rparr>) cb = Callback_valid P cb"
proof -
  have "callable_valid (P\<lparr>convert_zero := z\<rparr>) c = callable_valid P c" for c
    by (cases c) simp_all
  then show ?thesis
    by (simp add: Callback_valid_def cong: option.case_cong)
qed

lemma defined_call_void:
  assumes leave: "copies_leave_callbacks P"
    and range: "i < length C"
    and valid: "Callback_valid P (C ! i)"
  shows "defined_over C (call_void P i)" and "defined_over C (operator_call_void P i)"
proof -
  from defined_call(1) [of "P\<lparr>convert_zero := (\<lambda>s. (Inr (), s))\<rparr>" i C] leave range valid
  show call: "defined_over C (call_void P i)"
    by (simp add: defined_over_def call_void_is_call)
  from defined_pass_by_value [OF leave call]
  show "defined_over C (operator_call_void P i)"
    by (simp add: defined_over_def operator_call_void_def)
qed

subsection \<open>Sequences of operations\<close>

lemma call_step_keeps:
  assumes "keeps_callbacks (callf i)" and "call_step callf i args st = Some (out, st')"
  shows "callbacks st' = callbacks st"
  using assms
  by (auto simp: call_step_def keeps_callbacks_def split: option.splits sum.splits)

lemma compare_step_same:
  "compare_step cmp i j st = Some (out, st') \<Longrightarrow> st' = st"
  by (auto simp: compare_step_def split: option.splits)

lemma exec_keeps:
  assumes callf: "\<And>i. keeps_callbacks (callf i)"
    and parenf: "\<And>i. keeps_callbacks (parenf i)"
    and ran: "exec callf parenf x st = Some (out, st')"
  shows "callbacks st' = callbacks st"
proof (cases x)
  case (op_call i args)
  with ran call_step_keeps [OF callf] show ?thesis by simp
next
  case (op_paren i args)
  with ran call_step_keeps [OF parenf] show ?thesis by simp
next
  case (op_isCallbackSet i)
  with ran show ?thesis by (auto split: option.splits)
qed (use ran compare_step_same in fastforce)+

lemma run_keeps:
  assumes callf: "\<And>i. keeps_callbacks (callf i)"
    and parenf: "\<And>i. keeps_callbacks (parenf i)"
  shows "run callf parenf xs st = Some (outs, st') \<Longrightarrow> callbacks st' = callbacks st"
proof (induction xs arbitrary: st outs)
  case Nil
  then show ?case by simp
next
  case (Cons x xs)
  from Cons.prems obtain out st1 outs1
    where step: "exec callf parenf x st = Some (out, st1)"
      and rest: "run callf parenf xs st1 = Some (outs1, st')"
    by (auto split: option.splits)
  from exec_keeps [OF callf parenf step] Cons.IH [OF rest] show ?case
    by simp
qed

lemma query_outcome_same:
  assumes "is_query q" and "callbacks st' = callbacks st"
  shows "outcome_of (exec callf parenf q st') = outcome_of (exec callf parenf q st)"
  using assms
  by (cases q)
    (simp_all add: compare_step_def outcome_of_def object_at_callbacks [of st' st]
      split: option.splits)

lemma pointToSame_defined:
  "Callback_inv a \<Longrightarrow> Callback_inv b \<Longrightarrow> \<exists>r. pointToSame a b = Some r"
  by (simp add: pointToSame_constructed)

lemma pointToSame_CallbackCompare_defined:
  "Callback_inv a \<Longrightarrow> Callback_inv b \<Longrightarrow> \<exists>r. pointToSame_CallbackCompare a b = Some r"
  by (cases "type_info b = type_info a")
    (auto simp: pointToSame_CallbackCompare_def pointToSame_constructed)

lemma comparisons_defined:
  "\<forall>a b. Callback_inv a \<longrightarrow> Callback_inv b \<longrightarrow> (\<exists>r. pointToSame a b = Some r)"
  "\<forall>a b. Callback_inv a \<longrightarrow> Callback_inv b \<longrightarrow> (\<exists>r. pointToSame_CallbackCompare a b = Some r)"
  "\<forall>a b. Callback_inv a \<longrightarrow> Callback_inv b \<longrightarrow> (\<exists>r. operator_eq a b = Some r)"
  "\<forall>a b. Callback_inv a \<longrightarrow> Callback_inv b \<longrightarrow> (\<exists>r. operator_eq_CallbackCompare a b = Some r)"
  using pointToSame_defined pointToSame_CallbackCompare_defined
  by (simp_all add: operator_eq_def operator_eq_CallbackCompare_def)

lemma compare_step_defined:
  assumes cmp: "\<forall>a b. Callback_inv a \<longrightarrow> Callback_inv b \<longrightarrow> (\<exists>r. cmp a b = Some r)"
    and inv: "\<forall>cb \<in> set (callbacks st). Callback_inv cb"
    and range: "i < length (callbacks st) \<and> j < length (callbacks st)"
  shows "\<exists>r. compare_step cmp i j st = Some r"
proof -
  from inv range have "Callback_inv (callbacks st ! i)" and "Callback_inv (callbacks st ! j)"
    by simp_all
  with cmp obtain r where "cmp (callbacks st ! i) (callbacks st ! j) = Some r"
    by blast
  with range show ?thesis
    by (simp add: compare_step_def object_at_def)
qed

lemma call_step_defined:
  assumes "defined_over (callbacks st) (callf i)"
  shows "\<exists>r. call_step callf i args st = Some r"
proof -
  from assms have "\<exists>r. callf i args st = Some r"
    by (simp add: defined_over_def)
  then obtain r where "callf i args st = Some r" ..
  then show ?thesis
    by (cases r) (auto simp: call_step_def split: sum.splits)
qed

lemma exec_defined:
  assumes callf: "\<And>i. i < length (callbacks st) \<Longrightarrow> defined_over (callbacks st) (callf i)"
    and parenf: "\<And>i. i < length (callbacks st) \<Longrightarrow> defined_over (callbacks st) (parenf i)"
    and inv: "\<forall>cb \<in> set (callbacks st). Callback_inv cb"
    and range: "op_in_range (length (callbacks st)) x"
  shows "\<exists>r. exec callf parenf x st = Some r"
proof (cases x)
  case (op_call i args)
  with range have "i < length (callbacks st)" by simp
  from call_step_defined [where callf = callf and args = args, OF callf [OF this]] op_call
  show ?thesis by simp
next
  case (op_paren i args)
  with range have "i < length (callbacks st)" by simp
  from call_step_defined [where callf = parenf and args = args, OF parenf [OF this]] op_paren
  show ?thesis by simp
next
  case (op_isCallbackSet i)
  with range show ?thesis by (simp add: object_at_def)
next
  case (op_pointToSame i j)
  with range have "i < length (callbacks st) \<and> j < length (callbacks st)" by simp
  from compare_step_defined [OF comparisons_defined(1) inv this] op_pointToSame
  show ?thesis by simp
next
  case (op_pointToSame_CallbackCompare i j)
  with range have "i < length (callbacks st) \<and> j < length (callbacks st)" by simp
  from compare_step_defined [OF comparisons_defined(2) inv this] op_pointToSame_CallbackCompare
  show ?thesis by simp
next
  case (op_eq i j)
  with range have "i < length (callbacks st) \<and> j < length (callbacks st)" by simp
  from compare_step_defined [OF comparisons_defined(3) inv this] op_eq
  show ?thesis by simp
next
  case (op_eq_CallbackCompare i j)
  with range have "i < length (callbacks st) \<and> j < length (callbacks st)" by simp
  from compare_step_defined [OF comparisons_defined(4) inv this] op_eq_CallbackCompare
  show ?thesis by simp
qed

lemma run_defined:
  assumes keeps: "\<And>i. keeps_callbacks (callf i)" "\<And>i. keeps_callbacks (parenf i)"
    and callf: "\<And>i. i < length C \<Longrightarrow> defined_over C (callf i)"
    and parenf: "\<And>i. i < length C \<Longrightarrow> defined_over C (parenf i)"
    and inv: "\<forall>cb \<in> set C. Callback_inv cb"
    and range: "\<forall>x \<in> set xs. op_in_range (length C) x"
  shows "callbacks st = C \<Longrightarrow> \<exists>r. run callf parenf xs st = Some r"
  using range
proof (induction xs arbitrary: st)
  case Nil
  then show ?case by simp
next
  case (Cons x xs)
  from Cons.prems have C: "callbacks st = C" and x: "op_in_range (length C) x"
    by simp_all
  from exec_defined [of st callf parenf x] callf parenf inv x C
  obtain out st1 where step: "exec callf parenf x st = Some (out, st1)"
    by fastforce
  from exec_keeps [OF keeps step] C have "callbacks st1 = C"
    by simp
  with Cons.IH [of st1] Cons.prems obtain r where "run callf parenf xs st1 = Some r"
    by auto
  with step show ?case
    by (cases r) simp
qed

lemma run_of_callers:
  assumes keeps: "\<And>i. keeps_callbacks (callf i)" "\<And>i. keeps_callbacks (parenf i)"
    and defined: "\<And>i. (\<forall>cb \<in> set (callbacks st). Callback_valid P cb) \<Longrightarrow> i < length (callbacks st)
        \<Longrightarrow> defined_over (callbacks st) (callf i) \<and> defined_over (callbacks st) (parenf i)"
  shows "(\<forall>outs st'. run callf parenf xs st = Some (outs, st') \<longrightarrow>
            callbacks st' = callbacks st
            \<and> (\<forall>q. is_query q \<longrightarrow>
                  outcome_of (exec callf parenf q st') = outcome_of (exec callf parenf q st)))
         \<and> ((\<forall>cb \<in> set (callbacks st). Callback_valid P cb)
              \<and> (\<forall>x \<in> set xs. op_in_range (length (callbacks st)) x) \<longrightarrow>
            (\<exists>outs st'. run callf parenf xs st = Some (outs, st')))"
proof (intro conjI allI impI)
  fix outs st'
  assume ran: "run callf parenf xs st = Some (outs, st')"
  from run_keeps [OF keeps ran] show same: "callbacks st' = callbacks st" .
  fix q :: "'a operation"
  assume "is_query q"
  from query_outcome_same [OF this same]
  show "outcome_of (exec callf parenf q st') = outcome_of (exec callf parenf q st)" .
next
  assume valid: "(\<forall>cb \<in> set (callbacks st). Callback_valid P cb)
      \<and> (\<forall>x \<in> set xs. op_in_range (length (callbacks st)) x)"
  then have inv: "\<forall>cb \<in> set (callbacks st). Callback_inv cb"
    by (simp add: Callback_valid_def)
  from valid have range: "\<forall>x \<in> set xs. op_in_range (length (callbacks st)) x"
    by simp
  from valid defined have dc: "defined_over (callbacks st) (callf i)"
    and dp: "defined_over (callbacks st) (parenf i)" if "i < length (callbacks st)" for i
    using that by simp_all
  have "\<exists>r. run callf parenf xs st = Some r"
    by (rule run_defined [where callf = callf and parenf = parenf and C = "callbacks st",
          OF keeps dc dp inv range refl])
  then obtain r where "run callf parenf xs st = Some r" ..
  then show "\<exists>outs st'. run callf parenf xs st = Some (outs, st')"
    by (cases r) simp
qed

text \<open>
  C7, as stated: every operation after construction leaves the flag and the stored
  addresses of a Callback unchanged, so that repeated invocations return
  \<open>isCallbackSet()\<close> unchanged and repeated comparisons the same outcome. It fails
  for \<open>call\<close> on a Callback whose destination assigns to that Callback (the class is
  copy-assignable): of two Callbacks bound to the function at address 1, which assigns
  a default-constructed Callback to the first, \<open>isCallbackSet\<close> of the first and the
  comparison of the two answer true before the first is called and false after.
\<close>

theorem operations_leave_binding_counterexample:
  "run (call reassigning_program) (operator_call reassigning_program) reassigning_operations
      pair_machine
     = Some ([answered True, answered True, returned 5, answered False, answered False],
             pair_machine\<lparr>callbacks := [Callback_default int_int_int, bound_to_add]\<rparr>)
   \<and> callbacks pair_machine = [bound_to_add, bound_to_add]
   \<and> Callback_func target32 int_int_int 1 = Inr bound_to_add"
  by (simp add: reassigning_operations_def pair_machine_def reassigning_program_def
      call_step_def compare_step_def call_def private_call_def InternalCallable_call_def
      FunctionCaller_call_def invoke_function_def pass_by_value_def object_at_def
      isCallbackSet_def pointToSame_def bound_to_add_def Callback_default_def target32_func)

text \<open>
  C7, amended: the operations \<open>call\<close>, \<open>operator()\<close>, \<open>isCallbackSet\<close>,
  \<open>pointToSame\<close> and \<open>operator==\<close> themselves write neither the flag nor the
  buffer of any Callback. Where the code they run (the destinations, the copy
  constructors and destructors of the argument types, the conversion \<open>(R)0\<close>) leaves
  the Callback objects as they are, every sequence of these operations that returns
  leaves every Callback as it was, and afterwards \<open>isCallbackSet\<close> and every
  comparison answer what they answered before; on constructed Callbacks whose
  destinations exist every such sequence returns. This for a result type other than
  \<open>void\<close> and for \<open>void\<close>.
\<close>

theorem operations_leave_binding:
  fixes P :: "('a, 'r, 'w) program" and Pv :: "('b, unit, 'v) program"
  shows "(program_leaves_callbacks P \<longrightarrow>
            (\<forall>outs st'. run (call P) (operator_call P) xs st = Some (outs, st') \<longrightarrow>
               callbacks st' = callbacks st
               \<and> (\<forall>q. is_query q \<longrightarrow>
                     outcome_of (exec (call P) (operator_call P) q st')
                       = outcome_of (exec (call P) (operator_call P) q st)))
            \<and> ((\<forall>cb \<in> set (callbacks st). Callback_valid P cb)
                 \<and> (\<forall>x \<in> set xs. op_in_range (length (callbacks st)) x) \<longrightarrow>
               (\<exists>outs st'. run (call P) (operator_call P) xs st = Some (outs, st'))))
         \<and> (program_leaves_callbacks Pv \<longrightarrow>
            (\<forall>outs sv'. run (call_void Pv) (operator_call_void Pv) ys sv = Some (outs, sv') \<longrightarrow>
               callbacks sv' = callbacks sv
               \<and> (\<forall>q. is_query q \<longrightarrow>
                     outcome_of (exec (call_void Pv) (operator_call_void Pv) q sv')
                       = outcome_of (exec (call_void Pv) (operator_call_void Pv) q sv)))
            \<and> ((\<forall>cb \<in> set (callbacks sv). Callback_valid Pv cb)
                 \<and> (\<forall>y \<in> set ys. op_in_range (length (callbacks sv)) y) \<longrightarrow>
               (\<exists>outs sv'. run (call_void Pv) (operator_call_void Pv) ys sv = Some (outs, sv'))))"
proof (rule conjI; rule impI)
  assume leaves: "program_leaves_callbacks P"
  then have leave: "copies_leave_callbacks P"
    by (simp add: program_leaves_callbacks_def)
  show "(\<forall>outs st'. run (call P) (operator_call P) xs st = Some (outs, st') \<longrightarrow>
           callbacks st' = callbacks st
           \<and> (\<forall>q. is_query q \<longrightarrow>
                 outcome_of (exec (call P) (operator_call P) q st')
                   = outcome_of (exec (call P) (operator_call P) q st)))
        \<and> ((\<forall>cb \<in> set (callbacks st). Callback_valid P cb)
             \<and> (\<forall>x \<in> set xs. op_in_range (length (callbacks st)) x) \<longrightarrow>
           (\<exists>outs st'. run (call P) (operator_call P) xs st = Some (outs, st')))"
  proof (rule run_of_callers)
    show "keeps_callbacks (call P i)" and "keeps_callbacks (operator_call P i)" for i
      by (rule keeps_call [OF leaves], rule keeps_operator_call [OF leaves])
    fix i
    assume "\<forall>cb \<in> set (callbacks st). Callback_valid P cb" and range: "i < length (callbacks st)"
    then have "Callback_valid P (callbacks st ! i)"
      by simp
    from defined_call [OF leave range this]
    show "defined_over (callbacks st) (call P i)
        \<and> defined_over (callbacks st) (operator_call P i)"
      by simp
  qed
next
  assume leaves: "program_leaves_callbacks Pv"
  then have leave: "copies_leave_callbacks Pv"
    by (simp add: program_leaves_callbacks_def)
  show "(\<forall>outs sv'. run (call_void Pv) (operator_call_void Pv) ys sv = Some (outs, sv') \<longrightarrow>
           callbacks sv' = callbacks sv
           \<and> (\<forall>q. is_query q \<longrightarrow>
                 outcome_of (exec (call_void Pv) (operator_call_void Pv) q sv')
                   = outcome_of (exec (call_void Pv) (operator_call_void Pv) q sv)))
        \<and> ((\<forall>cb \<in> set (callbacks sv). Callback_valid Pv cb)
             \<and> (\<forall>y \<in> set ys. op_in_range (length (callbacks sv)) y) \<longrightarrow>
           (\<exists>outs sv'. run (call_void Pv) (operator_call_void Pv) ys sv = Some (outs, sv')))"
  proof (rule run_of_callers)
    show "keeps_callbacks (call_void Pv i)" and "keeps_callbacks (operator_call_void Pv i)" for i
      by (rule keeps_call_void [OF leaves], rule keeps_operator_call_void [OF leaves])
    fix i
    assume "\<forall>cb \<in> set (callbacks sv). Callback_valid Pv cb" and range: "i < length (callbacks sv)"
    then have "Callback_valid Pv (callbacks sv ! i)"
      by simp
    from defined_call_void [OF leave range this]
    show "defined_over (callbacks sv) (call_void Pv i)
        \<and> defined_over (callbacks sv) (operator_call_void Pv i)"
      by simp
  qed
qed

theorem operations_leave_binding_witness:
  "run (call example_program) (operator_call example_program) example_operations example_machine
     = Some ([returned 5, answered True, answered False, returned 70, answered True,
              returned 0, answered False], example_machine\<lparr>world := 2\<rparr>)
   \<and> outcome_of (exec (call example_program) (operator_call example_program)
        (op_isCallbackSet 0) (example_machine\<lparr>world := 2\<rparr>)) = Some (answered True)
   \<and> outcome_of (exec (call example_program) (operator_call example_program)
        (op_pointToSame 0 2) (example_machine\<lparr>world := 2\<rparr>)) = Some (answered False)
   \<and> run (call_void example_program_void) (operator_call_void example_program_void)
        example_operations_void example_machine_void
     = Some ([returned (), returned (), answered False, answered True],
             example_machine_void\<lparr>world := 1\<rparr>)"
proof -
  let ?callf = "call example_program" and ?parenf = "operator_call example_program"
  let ?callv = "call_void example_program_void"
    and ?parenv = "operator_call_void example_program_void"
  have leaves: "program_leaves_callbacks example_program"
    by (simp add: program_leaves_callbacks_def copies_leave_callbacks_def example_program_def
        add_def bump_def)
  have leaves_void: "program_leaves_callbacks example_program_void"
    by (simp add: program_leaves_callbacks_def copies_leave_callbacks_def
        example_program_void_def count_call_def)
  have valid: "(\<forall>cb \<in> set (callbacks example_machine). Callback_valid example_program cb)
      \<and> (\<forall>x \<in> set example_operations. op_in_range (length (callbacks example_machine)) x)"
    by (simp add: example_machine_def example_operations_def Callback_valid_def Callback_inv_def
        bound_to_add_def bound_to_bump_def Callback_default_def example_program_def)
  have valid_void:
    "(\<forall>cb \<in> set (callbacks example_machine_void). Callback_valid example_program_void cb)
      \<and> (\<forall>y \<in> set example_operations_void.
            op_in_range (length (callbacks example_machine_void)) y)"
    by (simp add: example_machine_void_def example_operations_void_def Callback_valid_def
        Callback_inv_def void_bound_to_1_def Callback_default_def example_program_void_def)
  have ran: "run ?callf ?parenf example_operations example_machine
     = Some ([returned 5, answered True, answered False, returned 70, answered True,
              returned 0, answered False], example_machine\<lparr>world := 2\<rparr>)"
    by (simp add: example_machine_def example_operations_def call_step_def compare_step_def
        call_def operator_call_def private_call_def InternalCallable_call_def
        FunctionCaller_call_def MethodCaller_call_def invoke_function_def invoke_method_def
        pass_by_value_def object_at_def isCallbackSet_def pointToSame_def operator_eq_def
        bound_to_add_def bound_to_bump_def Callback_default_def example_program_def
        add_def bump_def)
  have ran_void: "run ?callv ?parenv example_operations_void example_machine_void
     = Some ([returned (), returned (), answered False, answered True],
             example_machine_void\<lparr>world := 1\<rparr>)"
    by (simp add: example_machine_void_def example_operations_void_def call_step_def
        compare_step_def call_void_def operator_call_void_def private_call_void_def
        InternalCallable_call_def FunctionCaller_call_def invoke_function_def
        pass_by_value_def object_at_def isCallbackSet_def pointToSame_def
        pointToSame_CallbackCompare_def operator_eq_CallbackCompare_def
        void_bound_to_1_def Callback_default_def example_program_void_def count_call_def)
  have before: "outcome_of (exec ?callf ?parenf (op_isCallbackSet 0) example_machine)
        = Some (answered True)"
    "outcome_of (exec ?callf ?parenf (op_pointToSame 0 2) example_machine)
        = Some (answered False)"
    by (simp_all add: example_machine_def outcome_of_def compare_step_def object_at_def
        isCallbackSet_def pointToSame_def bound_to_add_def bound_to_bump_def)
  note frame = operations_leave_binding [where P = example_program and Pv = example_program_void
      and xs = example_operations and ys = example_operations_void
      and st = example_machine and sv = example_machine_void]
  from frame leaves ran
  have same: "\<forall>q. is_query q \<longrightarrow>
      outcome_of (exec ?callf ?parenf q (example_machine\<lparr>world := 2\<rparr>))
        = outcome_of (exec ?callf ?parenf q example_machine)"
    by blast
  from frame leaves valid
  have "\<exists>outs st'. run ?callf ?parenf example_operations example_machine = Some (outs, st')"
    by blast
  from frame leaves_void valid_void
  have "\<exists>outs sv'. run ?callv ?parenv example_operations_void example_machine_void
      = Some (outs, sv')"
    by blast
  have queries: "is_query (op_isCallbackSet 0 :: (int \<times> int) operation)"
    "is_query (op_pointToSame 0 2 :: (int \<times> int) operation)"
    by simp_all
  from same queries(1) have "outcome_of (exec ?callf ?parenf (op_isCallbackSet 0)
        (example_machine\<lparr>world := 2\<rparr>))
      = outcome_of (exec ?callf ?parenf (op_isCallbackSet 0) example_machine)"
    by blast
  moreover
  from same queries(2)
  have "outcome_of (exec ?callf ?parenf (op_pointToSame 0 2) (example_machine\<lparr>world := 2\<rparr>))
      = outcome_of (exec ?callf ?parenf (op_pointToSame 0 2) example_machine)"
    by blast
  ultimately have after: "outcome_of (exec ?callf ?parenf (op_isCallbackSet 0)
        (example_machine\<lparr>world := 2\<rparr>)) = Some (answered True)"
    "outcome_of (exec ?callf ?parenf (op_pointToSame 0 2) (example_machine\<lparr>world := 2\<rparr>))
      = Some (answered False)"
    using before by (simp_all only:)
  from ran ran_void after show ?thesis
    by (intro conjI)
qed

end
